theory Spec2Isabelle
  imports Main
begin

section \<open>Python values\<close>

subsection \<open>Strings\<close>

text \<open>
  A Python \<open>str\<close> is a sequence of Unicode code points and \<open>len\<close> counts code points, so a
  string is a list of code points here. \<open>u\<close> writes an ASCII literal.
\<close>

type_synonym ustr = "nat list"

definition u :: "string \<Rightarrow> ustr" where
  "u s = map of_char s"

text \<open>The characters \<open>str.strip()\<close> and \<open>str.split()\<close> treat as whitespace.\<close>

definition py_isspace :: "nat \<Rightarrow> bool" where
  "py_isspace c \<longleftrightarrow>
     (9 \<le> c \<and> c \<le> 13) \<or> (28 \<le> c \<and> c \<le> 32) \<or> c = 133 \<or> c = 160 \<or> c = 5760 \<or>
     (8192 \<le> c \<and> c \<le> 8202) \<or> c = 8232 \<or> c = 8233 \<or> c = 8239 \<or> c = 8287 \<or> c = 12288"

definition py_strip :: "ustr \<Rightarrow> ustr" where
  "py_strip s = rev (dropWhile py_isspace (rev (dropWhile py_isspace s)))"

text \<open>\<open>s.split()\<close>: the maximal runs of non-whitespace characters, in order.\<close>

fun split_ws :: "ustr \<Rightarrow> ustr \<Rightarrow> ustr list" where
  "split_ws cur [] = (if cur = [] then [] else [cur])"
| "split_ws cur (c # cs) =
     (if py_isspace c then (if cur = [] then split_ws [] cs else cur # split_ws [] cs)
      else split_ws (cur @ [c]) cs)"

definition py_split :: "ustr \<Rightarrow> ustr list" where
  "py_split s = split_ws [] s"

text \<open>\<open>s.split(sep)\<close> for a one-character separator: empty pieces are kept.\<close>

fun split_on :: "nat \<Rightarrow> ustr \<Rightarrow> ustr list" where
  "split_on sep [] = [[]]"
| "split_on sep (c # cs) =
     (if c = sep then [] # split_on sep cs
      else (case split_on sep cs of [] \<Rightarrow> [[c]] | w # ws \<Rightarrow> (c # w) # ws))"

fun py_join :: "ustr \<Rightarrow> ustr list \<Rightarrow> ustr" where
  "py_join sep [] = []"
| "py_join sep [w] = w"
| "py_join sep (w # v # ws) = w @ sep @ py_join sep (v # ws)"

fun startswith :: "ustr \<Rightarrow> ustr \<Rightarrow> bool" where
  "startswith s [] = True"
| "startswith [] (p # ps) = False"
| "startswith (c # cs) (p # ps) = (c = p \<and> startswith cs ps)"

text \<open>\<open>sub in s\<close>.\<close>

fun py_in :: "ustr \<Rightarrow> ustr \<Rightarrow> bool" where
  "py_in sub [] = (sub = [])"
| "py_in sub (c # cs) = (startswith (c # cs) sub \<or> py_in sub cs)"

text \<open>\<open>str(n)\<close> for an integer.\<close>

fun str_nat :: "nat \<Rightarrow> ustr" where
  "str_nat n = (if n < 10 then [48 + n] else str_nat (n div 10) @ [48 + n mod 10])"

declare str_nat.simps [simp del]

definition str_int :: "int \<Rightarrow> ustr" where
  "str_int i = (if i < 0 then 45 # str_nat (nat (- i)) else str_nat (nat i))"

subsection \<open>Dates, cells and frames\<close>

record datetime =
  dt_year :: nat
  dt_month :: nat
  dt_day :: nat
  dt_hour :: nat
  dt_minute :: nat
  dt_second :: nat
  dt_microsecond :: nat
  dt_tzinfo :: "int option"

datatype pyfloat = FNan | FInf bool | FNum int int

text \<open>
  The value of one cell of a data frame. \<open>CNull\<close> stands for every value pandas counts as
  missing (\<open>None\<close>, \<open>pd.NA\<close>, \<open>NaT\<close>); a float NaN is missing too.
\<close>

datatype cell = CNull | CStr ustr | CInt int | CBool bool | CFloat pyfloat | CDate datetime

fun isna :: "cell \<Rightarrow> bool" where
  "isna CNull = True"
| "isna (CFloat FNan) = True"
| "isna _ = False"

text \<open>
  A data frame: its column labels and its rows, each row giving the cell under a label.
  \<open>df.empty\<close> holds when either axis has length 0.
\<close>

record frame =
  columns :: "ustr list"
  rows :: "(ustr \<Rightarrow> cell) list"

definition df_empty :: "frame \<Rightarrow> bool" where
  "df_empty df \<longleftrightarrow> rows df = [] \<or> columns df = []"

text \<open>An exception, with the text \<open>str(exc)\<close> gives.\<close>

datatype exn = Exn (exn_text: ustr)

text \<open>
  The functions of the Python library the code calls and this development leaves open:
  \<open>str.lower\<close>, \<open>str.capitalize\<close>, \<open>str(value)\<close> of a value that is not a string,
  \<open>re.compile\<close> (the \<open>re.error\<close> it raises when the pattern is rejected, otherwise
  whether the pattern matches at the start of a text), \<open>int(text)\<close> and \<open>float(text)\<close> (\<open>None\<close> for
  \<open>ValueError\<close>), and the decimal digits with their values (what \<open>\d\<close> matches).
\<close>

record pylib =
  str_lower :: "ustr \<Rightarrow> ustr"
  str_capitalize :: "ustr \<Rightarrow> ustr"
  str_other :: "cell \<Rightarrow> ustr"
  re_compile :: "ustr \<Rightarrow> exn + (ustr \<Rightarrow> bool)"
  int_of_text :: "ustr \<Rightarrow> int option"
  float_of_text :: "ustr \<Rightarrow> pyfloat option"
  digit_value :: "nat \<Rightarrow> nat option"

definition py_str :: "pylib \<Rightarrow> cell \<Rightarrow> ustr" where
  "py_str L c = (case c of CStr s \<Rightarrow> s | _ \<Rightarrow> str_other L c)"

section \<open>datetime.strptime for the two formats of the code\<close>

text \<open>
  \<open>strptime\<close> turns the format into a regular expression, takes the match the
  backtracking matcher finds first, and fails when text is left over after it. A matcher
  is modelled by the list of its matches in the order of the search, each the number read
  and the text left; alternatives are tried from left to right.
\<close>

type_synonym matcher = "ustr \<Rightarrow> (nat \<times> ustr) list"

text \<open>Any decimal digit, a class \<open>[a-b]\<close> of ASCII digits, and one literal character.\<close>

definition any_digit :: "pylib \<Rightarrow> matcher" where
  "any_digit L s =
     (case s of [] \<Rightarrow> [] | c # cs \<Rightarrow> (case digit_value L c of None \<Rightarrow> [] | Some d \<Rightarrow> [(d, cs)]))"

definition digit_in :: "nat \<Rightarrow> nat \<Rightarrow> matcher" where
  "digit_in lo hi s =
     (case s of [] \<Rightarrow> []
      | c # cs \<Rightarrow> if 48 + lo \<le> c \<and> c \<le> 48 + hi then [(c - 48, cs)] else [])"

definition lit :: "nat \<Rightarrow> matcher" where
  "lit x s = (case s of [] \<Rightarrow> [] | c # cs \<Rightarrow> if c = x then [(0, cs)] else [])"

text \<open>Two matchers in a row read a number of two digits; \<open>alt\<close> is \<open>|\<close>.\<close>

definition two :: "matcher \<Rightarrow> matcher \<Rightarrow> matcher" where
  "two p q s = concat (map (\<lambda>(a, r). map (\<lambda>(b, r'). (10 * a + b, r')) (q r)) (p s))"

definition alt :: "matcher \<Rightarrow> matcher \<Rightarrow> matcher" where
  "alt p q s = p s @ q s"

text \<open>One or more whitespace characters, greedy: the longest run first.\<close>

fun ws_plus :: "ustr \<Rightarrow> ustr list" where
  "ws_plus [] = []"
| "ws_plus (c # cs) = (if py_isspace c then ws_plus cs @ [cs] else [])"

text \<open>The groups of \<open>%Y\<close>, \<open>%m\<close>, \<open>%d\<close>, \<open>%H\<close>, \<open>%M\<close> and \<open>%S\<close>.\<close>

definition re_Y :: "pylib \<Rightarrow> matcher" where
  "re_Y L = two (two (two (any_digit L) (any_digit L)) (any_digit L)) (any_digit L)"

definition re_m :: matcher where
  "re_m = alt (two (digit_in 1 1) (digit_in 0 2)) (alt (two (digit_in 0 0) (digit_in 1 9)) (digit_in 1 9))"

definition re_d :: "pylib \<Rightarrow> matcher" where
  "re_d L =
     alt (two (digit_in 3 3) (digit_in 0 1))
    (alt (two (digit_in 1 2) (any_digit L))
    (alt (two (digit_in 0 0) (digit_in 1 9))
    (alt (digit_in 1 9) (two (lit 32) (digit_in 1 9)))))"

definition re_H :: "pylib \<Rightarrow> matcher" where
  "re_H L = alt (two (digit_in 2 2) (digit_in 0 3)) (alt (two (digit_in 0 1) (any_digit L)) (any_digit L))"

definition re_M :: "pylib \<Rightarrow> matcher" where
  "re_M L = alt (two (digit_in 0 5) (any_digit L)) (any_digit L)"

definition re_S :: "pylib \<Rightarrow> matcher" where
  "re_S L = alt (two (digit_in 6 6) (digit_in 0 1)) (alt (two (digit_in 0 5) (any_digit L)) (any_digit L))"

text \<open>The matches of \<open>%Y-%m-%d\<close> and of \<open>%H:%M:%S\<close>, with the text left.\<close>

definition re_ymd :: "pylib \<Rightarrow> ustr \<Rightarrow> ((nat \<times> nat \<times> nat) \<times> ustr) list" where
  "re_ymd L s =
     concat (map (\<lambda>(y, r1). concat (map (\<lambda>(_, r2). concat (map (\<lambda>(m, r3).
       concat (map (\<lambda>(_, r4). map (\<lambda>(d, r5). ((y, m, d), r5)) (re_d L r4)) (lit 45 r3)))
       (re_m r2))) (lit 45 r1))) (re_Y L s))"

definition re_hms :: "pylib \<Rightarrow> ustr \<Rightarrow> ((nat \<times> nat \<times> nat) \<times> ustr) list" where
  "re_hms L s =
     concat (map (\<lambda>(h, r1). concat (map (\<lambda>(_, r2). concat (map (\<lambda>(m, r3).
       concat (map (\<lambda>(_, r4). map (\<lambda>(sec, r5). ((h, m, sec), r5)) (re_S L r4)) (lit 58 r3)))
       (re_M L r2))) (lit 58 r1))) (re_H L s))"

definition is_leap :: "nat \<Rightarrow> bool" where
  "is_leap y \<longleftrightarrow> y mod 4 = 0 \<and> (y mod 100 \<noteq> 0 \<or> y mod 400 = 0)"

definition days_in_month :: "nat \<Rightarrow> nat \<Rightarrow> nat" where
  "days_in_month y m =
     (if m = 2 then (if is_leap y then 29 else 28)
      else if m = 4 \<or> m = 6 \<or> m = 9 \<or> m = 11 then 30 else 31)"

text \<open>
  The \<open>datetime\<close> of the fields read, or \<open>ValueError\<close>: the year starts at 1, the day
  exists in its month, and a second of 60 or 61, which the pattern lets through, is
  refused by the constructor.
\<close>

definition mk_datetime :: "nat \<times> nat \<times> nat \<Rightarrow> nat \<times> nat \<times> nat \<Rightarrow> datetime option" where
  "mk_datetime ymd hms =
     (case (ymd, hms) of ((y, m, d), (h, mi, sec)) \<Rightarrow>
        if 1 \<le> y \<and> 1 \<le> m \<and> m \<le> 12 \<and> 1 \<le> d \<and> d \<le> days_in_month y m \<and>
           h \<le> 23 \<and> mi \<le> 59 \<and> sec \<le> 59
        then Some \<lparr>dt_year = y, dt_month = m, dt_day = d, dt_hour = h, dt_minute = mi,
                   dt_second = sec, dt_microsecond = 0, dt_tzinfo = None\<rparr>
        else None)"

text \<open>\<open>datetime.strptime(s, "%Y-%m-%d")\<close>; \<open>None\<close> is \<open>ValueError\<close>.\<close>

definition strptime_date :: "pylib \<Rightarrow> ustr \<Rightarrow> datetime option" where
  "strptime_date L s =
     (case re_ymd L s of
        [] \<Rightarrow> None
      | (ymd, rest) # _ \<Rightarrow> if rest \<noteq> [] then None else mk_datetime ymd (0, 0, 0))"

text \<open>\<open>datetime.strptime(s, "%Y-%m-%d %H:%M:%S")\<close>: the blank of the format stands for
  one or more whitespace characters.\<close>

definition re_ymd_hms ::
  "pylib \<Rightarrow> ustr \<Rightarrow> (((nat \<times> nat \<times> nat) \<times> (nat \<times> nat \<times> nat)) \<times> ustr) list" where
  "re_ymd_hms L s =
     concat (map (\<lambda>(ymd, r1). concat (map (\<lambda>r2. map (\<lambda>(hms, r3). ((ymd, hms), r3)) (re_hms L r2))
       (ws_plus r1))) (re_ymd L s))"

definition strptime_datetime :: "pylib \<Rightarrow> ustr \<Rightarrow> datetime option" where
  "strptime_datetime L s =
     (case re_ymd_hms L s of
        [] \<Rightarrow> None
      | ((ymd, hms), rest) # _ \<Rightarrow> if rest \<noteq> [] then None else mk_datetime ymd hms)"

text \<open>
  \<open>dt.strftime("%Y-%m-%d")\<close> as the C library of Linux prints it: month and day on two
  digits, the year without padding.
\<close>

definition pad :: "nat \<Rightarrow> ustr \<Rightarrow> ustr" where
  "pad n s = replicate (n - length s) 48 @ s"

definition strftime_date :: "datetime \<Rightarrow> ustr" where
  "strftime_date dt =
     str_nat (dt_year dt) @ u ''-'' @ pad 2 (str_nat (dt_month dt)) @ u ''-'' @
     pad 2 (str_nat (dt_day dt))"

text \<open>\<open>a > b\<close> on naive datetimes.\<close>

definition dt_fields :: "datetime \<Rightarrow> nat list" where
  "dt_fields d =
     [dt_year d, dt_month d, dt_day d, dt_hour d, dt_minute d, dt_second d, dt_microsecond d]"

fun lex_less :: "nat list \<Rightarrow> nat list \<Rightarrow> bool" where
  "lex_less [] ys = (ys \<noteq> [])"
| "lex_less (x # xs) [] = False"
| "lex_less (x # xs) (y # ys) = (x < y \<or> (x = y \<and> lex_less xs ys))"

definition dt_gt :: "datetime \<Rightarrow> datetime \<Rightarrow> bool" where
  "dt_gt a b \<longleftrightarrow> lex_less (dt_fields b) (dt_fields a)"

text \<open>A matcher leaves a part of its input: what is left holds no character the input did
  not hold.\<close>

definition leaves_part :: "matcher \<Rightarrow> bool" where
  "leaves_part p \<longleftrightarrow> (\<forall>s v r. (v, r) \<in> set (p s) \<longrightarrow> set r \<subseteq> set s)"

text \<open>A matcher takes between \<open>lo\<close> and \<open>hi\<close> characters from the front of its input.\<close>

definition takes :: "nat \<Rightarrow> nat \<Rightarrow> (ustr \<Rightarrow> ('a \<times> ustr) list) \<Rightarrow> bool" where
  "takes lo hi p \<longleftrightarrow>
     (\<forall>s v r. (v, r) \<in> set (p s) \<longrightarrow>
        (\<exists>pre. s = pre @ r \<and> lo \<le> length pre \<and> length pre \<le> hi))"

text \<open>When a matcher takes all of its input, the input ends with no whitespace.\<close>

definition ends_clean :: "(ustr \<Rightarrow> ('a \<times> ustr) list) \<Rightarrow> bool" where
  "ends_clean p \<longleftrightarrow> (\<forall>s v. (v, []) \<in> set (p s) \<longrightarrow> s \<noteq> [] \<and> \<not> py_isspace (last s))"

section \<open>validacion.py: the rule-driven validator\<close>

record rule =
  rule_type :: "ustr option"
  rule_regex :: "ustr option"
  rule_required :: bool
  rule_max_length :: "int option"

text \<open>The items of \<open>rules["fields"]\<close>, in the order of the dictionary.\<close>

type_synonym ruleset = "(ustr \<times> rule) list"

subsection \<open>\<open>_coerce_type\<close>\<close>

text \<open>The date branch: the text is tried against the two formats in this order.\<close>

definition coerce_date_text :: "pylib \<Rightarrow> ustr \<Rightarrow> datetime option" where
  "coerce_date_text L text =
     (case strptime_date L text of
        Some dt \<Rightarrow> Some dt
      | None \<Rightarrow> strptime_datetime L text)"

definition truthy :: "ustr list" where
  "truthy = [u ''true'', u ''1'', u ''t'', u ''yes'', u ''si'', [115, 237]]"

definition falsy :: "ustr list" where
  "falsy = [u ''false'', u ''0'', u ''f'', u ''no'']"

text \<open>
  One pass of the loop body: \<open>None\<close> when \<open>pd.NA\<close> is appended with the mask
  \<open>False\<close>, \<open>Some c\<close> when \<open>c\<close> is appended with the mask \<open>True\<close>.
\<close>

definition coerce_value :: "pylib \<Rightarrow> ustr \<Rightarrow> cell \<Rightarrow> cell option" where
  "coerce_value L expected_type v =
     (if isna v then None
      else if expected_type = u ''string'' then
        (let text = py_strip (py_str L v) in if text = [] then None else Some (CStr text))
      else if expected_type = u ''integer'' then
        (let text = py_strip (py_str L v) in
         if text = [] then None else map_option CInt (int_of_text L text))
      else if expected_type = u ''float'' then
        (let text = py_strip (py_str L v) in
         if text = [] then None else map_option CFloat (float_of_text L text))
      else if expected_type = u ''boolean'' then
        (case v of
           CBool b \<Rightarrow> Some v
         | _ \<Rightarrow>
            (let text = str_lower L (py_strip (py_str L v)) in
             if text \<in> set truthy then Some (CBool True)
             else if text \<in> set falsy then Some (CBool False)
             else None))
      else if expected_type = u ''date'' then
        (case v of
           CDate dt \<Rightarrow> Some (CStr (strftime_date dt))
         | _ \<Rightarrow>
            (let text = py_strip (py_str L v) in
             if text = [] then None
             else map_option (\<lambda>dt. CStr (strftime_date dt)) (coerce_date_text L text)))
      else Some v)"

definition coerce_type :: "pylib \<Rightarrow> cell list \<Rightarrow> ustr \<Rightarrow> cell list \<times> bool list" where
  "coerce_type L series expected_type =
     (map (\<lambda>v. case coerce_value L expected_type v of None \<Rightarrow> CNull | Some c \<Rightarrow> c) series,
      map (\<lambda>v. coerce_value L expected_type v \<noteq> None) series)"

subsection \<open>\<open>apply_validation\<close>\<close>

text \<open>\<open>coerced.fillna("").astype(str)\<close>, \<open>coerced.where(mask, pd.NA)\<close> and \<open>a &= b\<close>.\<close>

definition fillna_str :: "pylib \<Rightarrow> cell \<Rightarrow> ustr" where
  "fillna_str L c = (if isna c then [] else py_str L c)"

definition where_mask :: "cell list \<Rightarrow> bool list \<Rightarrow> cell list" where
  "where_mask series msk = map (\<lambda>(c, m). if m then c else CNull) (zip series msk)"

definition and_mask :: "bool list \<Rightarrow> bool list \<Rightarrow> bool list" where
  "and_mask a b = map (\<lambda>(x, y). x \<and> y) (zip a b)"

definition get_column :: "frame \<Rightarrow> ustr \<Rightarrow> cell list" where
  "get_column df field = map (\<lambda>r. r field) (rows df)"

text \<open>\<open>df[field] = series\<close>: the column is added at the end when it is new.\<close>

definition set_column :: "frame \<Rightarrow> ustr \<Rightarrow> cell list \<Rightarrow> frame" where
  "set_column df field series =
     \<lparr>columns = (if field \<in> set (columns df) then columns df else columns df @ [field]),
      rows = map (\<lambda>(r, c). r(field := c)) (zip (rows df) series)\<rparr>"

record vstate =
  df_clean :: frame
  invalid_cells :: "ustr \<rightharpoonup> int"
  required_fields :: "ustr list"

text \<open>The three checks of a field that is a column, each one narrowing the mask.\<close>

definition type_check :: "pylib \<Rightarrow> rule \<Rightarrow> cell list \<times> bool list \<Rightarrow> cell list \<times> bool list" where
  "type_check L config cm =
     (case rule_type config of
        None \<Rightarrow> cm
      | Some expected_type \<Rightarrow>
          if expected_type = [] then cm
          else (let (coerced, mask_type) = coerce_type L (fst cm) expected_type
                in (coerced, and_mask (snd cm) mask_type)))"

definition regex_check ::
  "pylib \<Rightarrow> rule \<Rightarrow> cell list \<times> bool list \<Rightarrow> exn + cell list \<times> bool list" where
  "regex_check L config cm =
     (case rule_regex config of
        None \<Rightarrow> Inr cm
      | Some regex_pattern \<Rightarrow>
          if regex_pattern = [] then Inr cm
          else (case re_compile L regex_pattern of
                  Inl exc \<Rightarrow> Inl exc
                | Inr regex \<Rightarrow>
                    (let mask_regex = map (\<lambda>c. regex (fillna_str L c)) (fst cm)
                     in Inr (where_mask (fst cm) mask_regex, and_mask (snd cm) mask_regex))))"

definition length_check :: "pylib \<Rightarrow> rule \<Rightarrow> cell list \<times> bool list \<Rightarrow> cell list \<times> bool list" where
  "length_check L config cm =
     (case rule_max_length config of
        None \<Rightarrow> cm
      | Some max_length \<Rightarrow>
          (let mask_length = map (\<lambda>c. int (length (fillna_str L c)) \<le> max_length) (fst cm)
           in (where_mask (fst cm) mask_length, and_mask (snd cm) mask_length)))"

text \<open>One pass of the loop over the fields of the ruleset.\<close>

definition field_step :: "pylib \<Rightarrow> ustr \<times> rule \<Rightarrow> vstate \<Rightarrow> exn + vstate" where
  "field_step L fc st =
     (case fc of (field, config) \<Rightarrow>
        (let req = (if rule_required config then required_fields st @ [field]
                    else required_fields st)
         in if field \<notin> set (columns (df_clean st)) then
              Inr \<lparr>df_clean = set_column (df_clean st) field
                                (replicate (length (rows (df_clean st))) CNull),
                   invalid_cells = (invalid_cells st)(field \<mapsto> int (length (rows (df_clean st)))),
                   required_fields = req\<rparr>
            else
              (let series = get_column (df_clean st) field;
                   cm0 = (series, replicate (length series) True)
               in case regex_check L config (type_check L config cm0) of
                    Inl exc \<Rightarrow> Inl exc
                  | Inr cm1 \<Rightarrow>
                      (let (coerced, mask_valid) = length_check L config cm1;
                           invalid_count = int (length (filter (\<lambda>m. \<not> m) mask_valid))
                       in Inr \<lparr>df_clean = set_column (df_clean st) field coerced,
                               invalid_cells =
                                 (if invalid_count \<noteq> 0
                                  then (invalid_cells st)(field \<mapsto> invalid_count)
                                  else invalid_cells st),
                               required_fields = req\<rparr>))))"

fun field_loop :: "pylib \<Rightarrow> ruleset \<Rightarrow> vstate \<Rightarrow> exn + vstate" where
  "field_loop L [] st = Inr st"
| "field_loop L (fc # fcs) st =
     (case field_step L fc st of Inl exc \<Rightarrow> Inl exc | Inr st' \<Rightarrow> field_loop L fcs st')"

text \<open>\<open>df.dropna(subset=required_fields)\<close>.\<close>

definition dropna :: "ustr list \<Rightarrow> frame \<Rightarrow> frame" where
  "dropna subs df = df\<lparr>rows := filter (\<lambda>r. list_all (\<lambda>f. \<not> isna (r f)) subs) (rows df)\<rparr>"

record stats =
  rows_received :: int
  rows_discarded :: int
  rows_valid :: int
  stats_invalid_cells :: "ustr \<rightharpoonup> int"

definition apply_validation :: "pylib \<Rightarrow> frame \<Rightarrow> ruleset \<Rightarrow> exn + frame \<times> stats" where
  "apply_validation L df rules_fields =
     (if df_empty df
      then Inr (df, \<lparr>rows_received = 0, rows_discarded = 0, rows_valid = 0,
                     stats_invalid_cells = Map.empty\<rparr>)
      else (case field_loop L rules_fields
                   \<lparr>df_clean = df, invalid_cells = Map.empty, required_fields = []\<rparr> of
              Inl exc \<Rightarrow> Inl exc
            | Inr st \<Rightarrow>
                (let before_drop = int (length (rows (df_clean st)));
                     out = (if required_fields st \<noteq> []
                            then dropna (required_fields st) (df_clean st) else df_clean st);
                     after_drop = int (length (rows out))
                 in Inr (out, \<lparr>rows_received = int (length (rows df)),
                                rows_discarded = before_drop - after_drop,
                                rows_valid = after_drop,
                                stats_invalid_cells = invalid_cells st\<rparr>))))"

subsection \<open>validaciones.py: the default rules\<close>

text \<open>The pattern texts; 92 is the backslash.\<close>

definition re_date :: ustr where
  "re_date = 92 # u ''d{4}-'' @ 92 # u ''d{2}-'' @ 92 # u ''d{2}''"

definition re_time :: ustr where
  "re_time = 92 # u ''d{2}:'' @ 92 # u ''d{2}:'' @ 92 # u ''d{2}''"

definition DEFAULT_RULES :: ruleset where
  "DEFAULT_RULES =
     [(u ''title'', \<lparr>rule_type = Some (u ''string''), rule_regex = Some (u ''.+''),
                     rule_required = True, rule_max_length = Some 65\<rparr>),
      (u ''created_at'', \<lparr>rule_type = Some (u ''date''),
                          rule_regex = Some (u ''^'' @ re_date),
                          rule_required = True, rule_max_length = None\<rparr>),
      (u ''external_link'', \<lparr>rule_type = Some (u ''string''), rule_regex = Some (u ''^https?://.+''),
                             rule_required = True, rule_max_length = None\<rparr>),
      (u ''summary'', \<lparr>rule_type = Some (u ''string''), rule_regex = None,
                       rule_required = False, rule_max_length = None\<rparr>),
      (u ''rtype_id'', \<lparr>rule_type = Some (u ''integer''), rule_regex = None,
                        rule_required = True, rule_max_length = None\<rparr>),
      (u ''classification_id'', \<lparr>rule_type = Some (u ''integer''), rule_regex = None,
                                 rule_required = True, rule_max_length = None\<rparr>),
      (u ''is_active'', \<lparr>rule_type = Some (u ''boolean''), rule_regex = None,
                         rule_required = True, rule_max_length = None\<rparr>),
      (u ''update_at'', \<lparr>rule_type = Some (u ''string''),
                         rule_regex = Some (u ''^'' @ re_date @ u '' '' @ re_time @ u ''$''),
                         rule_required = True, rule_max_length = None\<rparr>)]"

section \<open>extraccion.py: the record extractor\<close>

definition FIXED_CLASSIFICATION_ID :: int where
  "FIXED_CLASSIFICATION_ID = 13"

definition DEFAULT_RTYPE_ID :: int where
  "DEFAULT_RTYPE_ID = 14"

text \<open>
  The keywords in the order of the dictionary: \<open>resolucion\<close> written with the accented
  letter U+00F3, \<open>resolucion\<close> without it, and \<open>decreto\<close>.
\<close>

definition CLASSIFICATION_KEYWORDS :: "(ustr \<times> int) list" where
  "CLASSIFICATION_KEYWORDS =
     [(u ''resoluci'' @ [243] @ u ''n'', 15), (u ''resolucion'', 15), (u ''decreto'', 14)]"

subsection \<open>\<open>clean_quotes\<close>\<close>

text \<open>
  The keys of \<open>quotes_map\<close>, each replaced by the empty string in turn, and the characters
  of the class in \<open>quotes_pattern\<close>, which adds U+201D.
\<close>

definition quotes_map :: "nat list" where
  "quotes_map =
     [0x201C, 0x2018, 0x2019, 0xAB, 0xBB, 0x201E, 0x201A, 0x2039, 0x203A, 0x22, 0x27, 0xB4,
      0x60, 0x2032, 0x2033]"

definition quotes_pattern :: "nat list" where
  "quotes_pattern =
     [0x27, 0x22, 0x201C, 0x201D, 0x2018, 0x2019, 0xAB, 0xBB, 0x201E, 0x201A, 0x2039, 0x203A,
      0x2032, 0x2033]"

definition replace_char :: "nat \<Rightarrow> ustr \<Rightarrow> ustr" where
  "replace_char c s = filter (\<lambda>x. x \<noteq> c) s"

definition clean_quotes :: "ustr \<Rightarrow> ustr" where
  "clean_quotes text =
     (if text = [] then text
      else (let cleaned1 = fold replace_char quotes_map text;
                cleaned2 = filter (\<lambda>x. x \<notin> set quotes_pattern) cleaned1;
                cleaned3 = py_strip cleaned2
            in py_join (u '' '') (py_split cleaned3)))"

definition get_rtype_id :: "pylib \<Rightarrow> ustr \<Rightarrow> int" where
  "get_rtype_id L title =
     (case filter (\<lambda>(keyword, rtype_id). py_in keyword (str_lower L title))
             CLASSIFICATION_KEYWORDS of
        [] \<Rightarrow> DEFAULT_RTYPE_ID
      | (keyword, rtype_id) # _ \<Rightarrow> rtype_id)"

definition is_valid_created_at :: "ustr option \<Rightarrow> bool" where
  "is_valid_created_at created_at_value =
     (case created_at_value of
        None \<Rightarrow> False
      | Some s \<Rightarrow> if s = [] then False else py_strip s \<noteq> [])"

definition normalize_datetime :: "datetime option \<Rightarrow> datetime option" where
  "normalize_datetime dt =
     (case dt of
        None \<Rightarrow> None
      | Some d \<Rightarrow> if dt_tzinfo d \<noteq> None then Some (d\<lparr>dt_tzinfo := None\<rparr>) else Some d)"

subsection \<open>The rows of a page\<close>

text \<open>
  What the lookups on a table row find: the title cell and its anchor (text and
  \<open>href\<close>), the text of the summary cell, the date cell with its \<open>span\<close> (the
  \<open>content\<close> attribute and the text) and its own text. Texts are as
  \<open>get_text(strip=True)\<close> returns them.
\<close>

record anchor =
  a_text :: ustr
  a_href :: "ustr option"

record fecha_span =
  span_content :: "ustr option"
  span_text :: ustr

record fecha_cell =
  fc_span :: "fecha_span option"
  fc_text :: ustr

record html_row =
  title_cell :: "anchor option option"
  summary_cell :: "ustr option"
  fecha_cell :: "fecha_cell option"

record norma =
  nd_created_at :: "ustr option"
  nd_update_at :: ustr
  nd_is_active :: bool
  nd_title :: "ustr option"
  nd_gtype :: "ustr option"
  nd_entity :: ustr
  nd_external_link :: "ustr option"
  nd_rtype_id :: "int option"
  nd_summary :: "ustr option"
  nd_classification_id :: int

definition truthy_str :: "ustr option \<Rightarrow> bool" where
  "truthy_str s = (case s of None \<Rightarrow> False | Some t \<Rightarrow> t \<noteq> [])"

definition extract_title_and_link :: "html_row \<Rightarrow> norma \<Rightarrow> norma \<times> bool" where
  "extract_title_and_link row norma_data =
     (case title_cell row of
        None \<Rightarrow> (norma_data, False)
      | Some None \<Rightarrow> (norma_data, False)
      | Some (Some title_link) \<Rightarrow>
          (let cleaned_title = clean_quotes (a_text title_link) in
           if length cleaned_title > 65 then (norma_data, False)
           else
             (let external_link =
                    (case a_href title_link of
                       None \<Rightarrow> None
                     | Some h \<Rightarrow>
                         if h \<noteq> [] \<and> \<not> startswith h (u ''http'')
                         then Some (u ''https://www.ani.gov.co'' @ h) else Some h);
                  nd = norma_data\<lparr>nd_title := Some cleaned_title,
                         nd_external_link := external_link,
                         nd_gtype := (if truthy_str external_link then Some (u ''link'') else None)\<rparr>
              in (nd, truthy_str external_link))))"

definition extract_summary :: "pylib \<Rightarrow> html_row \<Rightarrow> norma \<Rightarrow> norma" where
  "extract_summary L row norma_data =
     (case summary_cell row of
        Some raw_summary \<Rightarrow>
          norma_data\<lparr>nd_summary := Some (str_capitalize L (clean_quotes raw_summary))\<rparr>
      | None \<Rightarrow> norma_data\<lparr>nd_summary := None\<rparr>)"

text \<open>\<open>s.zfill(2)\<close>: zeros go after a leading sign.\<close>

definition zfill2 :: "ustr \<Rightarrow> ustr" where
  "zfill2 s =
     (if length s \<ge> 2 then s
      else if s = [] then u ''00''
      else if s = u ''+'' \<or> s = u ''-'' then s @ u ''0''
      else u ''0'' @ s)"

text \<open>The value stored under \<open>created_at\<close>.\<close>

definition created_at_of :: "html_row \<Rightarrow> ustr option" where
  "created_at_of row =
     (case fecha_cell row of
        None \<Rightarrow> None
      | Some fc \<Rightarrow>
          (case fc_span fc of
             None \<Rightarrow> Some (fc_text fc)
           | Some sp \<Rightarrow>
               (let created_at_raw =
                      (case span_content sp of Some c \<Rightarrow> c | None \<Rightarrow> span_text sp)
                in if 84 \<in> set created_at_raw
                   then Some (case split_on 84 created_at_raw of [] \<Rightarrow> [] | w # _ \<Rightarrow> w)
                   else if 47 \<in> set created_at_raw
                   then (case split_on 47 created_at_raw of
                           [day, month, year] \<Rightarrow>
                             Some (year @ u ''-'' @ zfill2 month @ u ''-'' @ zfill2 day)
                         | _ \<Rightarrow> Some created_at_raw)
                   else Some created_at_raw)))"

definition extract_creation_date :: "html_row \<Rightarrow> norma \<Rightarrow> norma \<times> bool" where
  "extract_creation_date row norma_data =
     (let nd = norma_data\<lparr>nd_created_at := created_at_of row\<rparr>
      in (nd, is_valid_created_at (nd_created_at nd)))"

subsection \<open>\<open>scrape_page\<close>\<close>

text \<open>
  What fetching and parsing a page gives: a failure of the request, a document without a
  \<open>tbody\<close>, or the rows of the table. \<open>now\<close> is the clock reading formatted for
  \<open>update_at\<close>.
\<close>

datatype page = RequestFailed | NoTable | Table "html_row list"

definition new_norma :: "ustr \<Rightarrow> norma" where
  "new_norma now =
     \<lparr>nd_created_at = None, nd_update_at = now, nd_is_active = True, nd_title = None,
      nd_gtype = None, nd_entity = u ''Agencia Nacional de Infraestructura'',
      nd_external_link = None, nd_rtype_id = None, nd_summary = None,
      nd_classification_id = FIXED_CLASSIFICATION_ID\<rparr>"

text \<open>One pass of the loop over the rows: the record appended, or \<open>None\<close> for \<open>continue\<close>.\<close>

definition scrape_row :: "pylib \<Rightarrow> ustr \<Rightarrow> html_row \<Rightarrow> norma option" where
  "scrape_row L now row =
     (case extract_title_and_link row (new_norma now) of
        (nd1, ok1) \<Rightarrow>
          if \<not> ok1 then None
          else (case extract_creation_date row (extract_summary L row nd1) of
                  (nd2, ok2) \<Rightarrow>
                    if \<not> ok2 then None
                    else Some (nd2\<lparr>nd_rtype_id :=
                                 Some (get_rtype_id L (case nd_title nd2 of Some t \<Rightarrow> t | None \<Rightarrow> []))\<rparr>)))"

definition scrape_page :: "pylib \<Rightarrow> ustr \<Rightarrow> page \<Rightarrow> norma list" where
  "scrape_page L now pg =
     (case pg of
        RequestFailed \<Rightarrow> []
      | NoTable \<Rightarrow> []
      | Table trs \<Rightarrow> List.map_filter (scrape_row L now) trs)"


section \<open>extraccion.py: the change probe\<close>

text \<open>
  The date of a candidate: the format with the time on the whole text first, then the
  format of the date alone on the first piece of \<open>split()\<close>; \<open>None\<close> when the record is
  passed over.
\<close>

definition web_date_of :: "pylib \<Rightarrow> ustr \<Rightarrow> datetime option" where
  "web_date_of L created_at_val =
     (case strptime_datetime L created_at_val of
        Some d \<Rightarrow> Some d
      | None \<Rightarrow>
          (case py_split created_at_val of
             [] \<Rightarrow> None
           | w # _ \<Rightarrow> strptime_date L w))"

text \<open>The loop over the records of a page: \<open>True\<close> when it returns \<open>True\<close>.\<close>

fun check_records :: "pylib \<Rightarrow> datetime option \<Rightarrow> norma list \<Rightarrow> bool" where
  "check_records L latest_db_date [] = False"
| "check_records L latest_db_date (record # records) =
     (if \<not> truthy_str (nd_created_at record) \<or> \<not> is_valid_created_at (nd_created_at record)
      then check_records L latest_db_date records
      else (case web_date_of L (case nd_created_at record of Some s \<Rightarrow> s | None \<Rightarrow> []) of
              None \<Rightarrow> check_records L latest_db_date records
            | Some d \<Rightarrow>
                (case (normalize_datetime (Some d), latest_db_date) of
                   (_, None) \<Rightarrow> True
                 | (Some web_date, Some latest) \<Rightarrow>
                     if dt_gt web_date latest then True
                     else check_records L latest_db_date records
                 | (None, Some latest) \<Rightarrow> check_records L latest_db_date records)))"

fun check_pages ::
  "pylib \<Rightarrow> ustr \<Rightarrow> (int \<Rightarrow> page) \<Rightarrow> datetime option \<Rightarrow> int list \<Rightarrow> bool" where
  "check_pages L now site latest_db_date [] = False"
| "check_pages L now site latest_db_date (page_num # page_nums) =
     (if check_records L latest_db_date (scrape_page L now (site page_num)) then True
      else check_pages L now site latest_db_date page_nums)"

text \<open>
  \<open>fetch_latest_created_at\<close> is the outcome of calling the accessor: the exception it
  raises, or the date it returns.
\<close>

definition check_for_new_content ::
  "pylib \<Rightarrow> ustr \<Rightarrow> (int \<Rightarrow> page) \<Rightarrow> exn + datetime option \<Rightarrow> int \<Rightarrow> bool" where
  "check_for_new_content L now site fetch_latest_created_at num_pages_to_check =
     (case fetch_latest_created_at of
        Inl exc \<Rightarrow> True
      | Inr latest \<Rightarrow>
          check_pages L now site (normalize_datetime latest) [0..num_pages_to_check - 1])"

section \<open>escritura.py: the deduplicating writer\<close>

subsection \<open>\<open>DatabaseManager\<close>\<close>

text \<open>
  A row of the query for the persisted records of an entity:
  title, \<open>created_at::text\<close>, entity, \<open>COALESCE(external_link, '')\<close>.
\<close>

record db_row =
  db_title :: cell
  db_created_at :: cell
  db_entity :: cell
  db_external_link :: cell

text \<open>
  The connection as the writer sees it: whether cursor and connection are set, what the
  two queries return or raise, whether \<open>executemany\<close> followed by \<open>commit\<close> raises, and
  whether \<open>rollback\<close> raises.
\<close>

record dbm =
  connected :: bool
  select_existing :: "ustr \<Rightarrow> exn + db_row list"
  select_new_ids :: "ustr \<Rightarrow> int \<Rightarrow> exn + int list"
  executemany :: "ustr \<Rightarrow> frame \<Rightarrow> exn option"
  rollback :: "exn option"

definition REGULATIONS_TABLE :: ustr where
  "REGULATIONS_TABLE = u ''regulations''"

definition REGULATIONS_COMPONENT_TABLE :: ustr where
  "REGULATIONS_COMPONENT_TABLE = u ''regulations_component''"

definition ENTITY_VALUE :: ustr where
  "ENTITY_VALUE = u ''Agencia Nacional de Infraestructura''"

definition not_connected :: exn where
  "not_connected = Exn (u ''Database not connected'')"

definition bulk_insert :: "dbm \<Rightarrow> frame \<Rightarrow> ustr \<Rightarrow> exn + int" where
  "bulk_insert db df table_name =
     (if \<not> connected db then Inl not_connected
      else (case executemany db table_name df of
              None \<Rightarrow> Inr (int (length (rows df)))
            | Some exc \<Rightarrow>
                (case rollback db of
                   Some rb \<Rightarrow> Inl rb
                 | None \<Rightarrow>
                     Inl (Exn (u ''Error inserting into '' @ table_name @ u '': '' @ exn_text exc)))))"

subsection \<open>\<open>insert_regulations_component\<close>\<close>

definition component_frame :: "int list \<Rightarrow> frame" where
  "component_frame new_ids =
     \<lparr>columns = [u ''regulations_id'', u ''components_id''],
      rows = map (\<lambda>i. (\<lambda>_. CNull)(u ''regulations_id'' := CInt i, u ''components_id'' := CInt 7))
                 new_ids\<rparr>"

definition insert_regulations_component :: "dbm \<Rightarrow> int list \<Rightarrow> int \<times> ustr" where
  "insert_regulations_component db new_ids =
     (if new_ids = [] then (0, u ''No new regulation IDs provided'')
      else (case bulk_insert db (component_frame new_ids) REGULATIONS_COMPONENT_TABLE of
              Inr inserted_count \<Rightarrow>
                (inserted_count,
                 u ''Successfully inserted '' @ str_int inserted_count @ u '' regulation components'')
            | Inl exc \<Rightarrow> (0, u ''Error inserting regulation components: '' @ exn_text exc)))"

subsection \<open>\<open>insert_new_records\<close>\<close>

text \<open>The three columns are brought to strings, on both sides in the same way.\<close>

definition norm_db_row :: "pylib \<Rightarrow> db_row \<Rightarrow> db_row" where
  "norm_db_row L r =
     r\<lparr>db_created_at := CStr (py_str L (db_created_at r)),
       db_external_link :=
         CStr (if isna (db_external_link r) then [] else py_str L (db_external_link r)),
       db_title := CStr (py_strip (py_str L (db_title r)))\<rparr>"

definition norm_row :: "pylib \<Rightarrow> (ustr \<Rightarrow> cell) \<Rightarrow> (ustr \<Rightarrow> cell)" where
  "norm_row L r =
     r(u ''created_at'' := CStr (py_str L (r (u ''created_at''))),
       u ''external_link'' :=
         CStr (if isna (r (u ''external_link'')) then [] else py_str L (r (u ''external_link''))),
       u ''title'' := CStr (py_strip (py_str L (r (u ''title'')))))"

text \<open>\<open>a + "|" + b + "|" + c\<close> on string cells.\<close>

definition str_of_cell :: "cell \<Rightarrow> ustr" where
  "str_of_cell c = (case c of CStr s \<Rightarrow> s | _ \<Rightarrow> [])"

definition join_key :: "cell \<Rightarrow> cell \<Rightarrow> cell \<Rightarrow> ustr" where
  "join_key t c l = str_of_cell t @ u ''|'' @ str_of_cell c @ u ''|'' @ str_of_cell l"

definition row_unique_key :: "(ustr \<Rightarrow> cell) \<Rightarrow> ustr" where
  "row_unique_key r = join_key (r (u ''title'')) (r (u ''created_at'')) (r (u ''external_link''))"

definition db_unique_key :: "db_row \<Rightarrow> ustr" where
  "db_unique_key r = join_key (db_title r) (db_created_at r) (db_external_link r)"

text \<open>\<open>drop_duplicates(subset=..., keep="first")\<close>: the first row of each key stays.\<close>

fun drop_dups :: "('a \<Rightarrow> 'k) \<Rightarrow> 'k list \<Rightarrow> 'a list \<Rightarrow> 'a list" where
  "drop_dups key seen [] = []"
| "drop_dups key seen (x # xs) =
     (if key x \<in> set seen then drop_dups key seen xs
      else x # drop_dups key (key x # seen) xs)"

definition subset_key :: "(ustr \<Rightarrow> cell) \<Rightarrow> cell \<times> cell \<times> cell" where
  "subset_key r = (r (u ''title''), r (u ''created_at''), r (u ''external_link''))"

definition drop_duplicates :: "(ustr \<Rightarrow> cell) list \<Rightarrow> (ustr \<Rightarrow> cell) list" where
  "drop_duplicates rs = drop_dups subset_key [] rs"

text \<open>
  The duplicate validation in the middle of \<open>insert_new_records\<close>, from the normalised
  persisted rows and the normalised rows of the entity: the rows to insert and the two
  counts \<open>duplicates_found\<close> and \<open>internal_duplicates\<close>, computed by subtraction as
  the source does, on Python's integers.
\<close>

record dup_result =
  entity_rows :: "(ustr \<Rightarrow> cell) list"
  new_records :: "(ustr \<Rightarrow> cell) list"
  duplicates_found :: int
  internal_duplicates :: int

definition mark_duplicates :: "ustr list \<Rightarrow> (ustr \<Rightarrow> cell) list \<Rightarrow> (ustr \<Rightarrow> cell) list" where
  "mark_duplicates existing_keys rs =
     map (\<lambda>r. let r1 = r(u ''unique_key'' := CStr (row_unique_key r))
               in r1(u ''is_duplicate'' := CBool (row_unique_key r \<in> set existing_keys))) rs"

definition duplicate_validation :: "db_row list \<Rightarrow> (ustr \<Rightarrow> cell) list \<Rightarrow> dup_result" where
  "duplicate_validation db_df entity_df =
     (let (entity_df1, new0, dups) =
            (if db_df = [] then (entity_df, entity_df, 0)
             else
               (let marked = mark_duplicates (map db_unique_key db_df) entity_df;
                    new0 = filter (\<lambda>r. r (u ''is_duplicate'') \<noteq> CBool True) marked
                in (marked, new0, int (length marked) - int (length new0))));
          new1 = drop_duplicates new0
      in \<lparr>entity_rows = entity_df1, new_records = new1, duplicates_found = dups,
          internal_duplicates = int (length entity_df1) - dups - int (length new1)\<rparr>)"

definition is_unique_violation :: "pylib \<Rightarrow> exn \<Rightarrow> bool" where
  "is_unique_violation L e \<longleftrightarrow>
     py_in (u ''duplicate'') (str_lower L (exn_text e)) \<or>
     py_in (u ''unique'') (str_lower L (exn_text e))"

definition key_error :: "ustr \<Rightarrow> exn" where
  "key_error k = Exn (u [CHR 0x27] @ k @ u [CHR 0x27])"

definition execute_query_existing :: "dbm \<Rightarrow> ustr \<Rightarrow> exn + db_row list" where
  "execute_query_existing db entity =
     (if \<not> connected db then Inl not_connected else select_existing db entity)"

definition execute_query_new_ids :: "dbm \<Rightarrow> ustr \<Rightarrow> int \<Rightarrow> exn + int list" where
  "execute_query_new_ids db entity n =
     (if \<not> connected db then Inl not_connected else select_new_ids db entity n)"

text \<open>
  The body of the outer \<open>try\<close>: \<open>Inl\<close> is an exception on its way to the outer handler,
  \<open>Inr\<close> a value returned.
\<close>

definition drop_columns :: "ustr list \<Rightarrow> ustr list \<Rightarrow> ustr list" where
  "drop_columns cols_to_drop cols = filter (\<lambda>c. c \<notin> set cols_to_drop) cols"

definition stats_message ::
  "ustr \<Rightarrow> int \<Rightarrow> int \<Rightarrow> int \<Rightarrow> int \<Rightarrow> ustr \<Rightarrow> ustr" where
  "stats_message entity processed existing total_duplicates inserted component_message =
     u ''Entity '' @ entity @ u '': '' @
     u ''Processed: '' @ str_int processed @ u '' | '' @
     u ''Existing: '' @ str_int existing @ u '' | '' @
     u ''Duplicates skipped: '' @ str_int total_duplicates @ u '' | '' @
     u ''New inserted: '' @ str_int inserted @ u ''. '' @ component_message"

definition after_insert ::
  "dbm \<Rightarrow> ustr \<Rightarrow> nat \<Rightarrow> dup_result \<Rightarrow> int \<Rightarrow> exn + int \<times> ustr" where
  "after_insert db entity n_existing res total_rows_processed =
     (if total_rows_processed = 0
      then Inr (0, u ''No records were actually inserted for entity '' @ entity)
      else (case execute_query_new_ids db entity total_rows_processed of
              Inl exc \<Rightarrow> Inl exc
            | Inr new_ids \<Rightarrow>
                (let component_message =
                       (if new_ids \<noteq> [] then snd (insert_regulations_component db new_ids) else []);
                     total_duplicates = duplicates_found res + internal_duplicates res
                 in Inr (total_rows_processed,
                         stats_message entity (int (length (entity_rows res))) (int n_existing)
                           total_duplicates total_rows_processed component_message))))"

text \<open>
  Up to the bulk insert: an exception, an early return, or the frame handed to
  \<open>bulk_insert\<close> with the counts and the number of persisted rows.
\<close>

definition records_to_insert ::
  "pylib \<Rightarrow> dbm \<Rightarrow> frame \<Rightarrow> ustr \<Rightarrow> exn + ((int \<times> ustr) + (frame \<times> dup_result \<times> nat))" where
  "records_to_insert L db df entity =
     (case execute_query_existing db entity of
        Inl exc \<Rightarrow> Inl exc
      | Inr existing_records \<Rightarrow>
          if u ''entity'' \<notin> set (columns df) then Inl (key_error (u ''entity''))
          else
            (let entity_df = filter (\<lambda>r. r (u ''entity'') = CStr entity) (rows df) in
             if entity_df = [] then Inr (Inl (0, u ''No records found for entity '' @ entity))
             else
               (let db_df = map (norm_db_row L) existing_records in
                if u ''created_at'' \<notin> set (columns df) then Inl (key_error (u ''created_at''))
                else if u ''external_link'' \<notin> set (columns df)
                  then Inl (key_error (u ''external_link''))
                else if u ''title'' \<notin> set (columns df) then Inl (key_error (u ''title''))
                else
                  (let res = duplicate_validation db_df (map (norm_row L) entity_df) in
                   if new_records res = []
                   then Inr (Inl (0, u ''No new records found for entity '' @ entity @
                                     u '' after duplicate validation''))
                   else
                     Inr (Inr (\<lparr>columns = drop_columns [u ''unique_key'', u ''is_duplicate'']
                                         (if db_df = [] then columns df
                                          else remdups (columns df @
                                                 [u ''unique_key'', u ''is_duplicate''])),
                                rows = new_records res\<rparr>, res, length db_df))))))"

definition insert_new_records_body ::
  "pylib \<Rightarrow> dbm \<Rightarrow> frame \<Rightarrow> ustr \<Rightarrow> exn + int \<times> ustr" where
  "insert_new_records_body L db df entity =
     (case records_to_insert L db df entity of
        Inl exc \<Rightarrow> Inl exc
      | Inr (Inl early) \<Rightarrow> Inr early
      | Inr (Inr (to_insert, res, n_existing)) \<Rightarrow>
          (case bulk_insert db to_insert REGULATIONS_TABLE of
             Inl insert_error \<Rightarrow>
               if is_unique_violation L insert_error
               then Inr (0, u ''Some records for entity '' @ entity @
                            u '' were duplicates and skipped'')
               else Inl insert_error
           | Inr total_rows_processed \<Rightarrow>
               after_insert db entity n_existing res total_rows_processed))"

text \<open>
  The outer handler rolls back when a connection is set and returns the error text with
  a zero count; an exception of the rollback itself leaves the function.
\<close>

definition insert_new_records :: "pylib \<Rightarrow> dbm \<Rightarrow> frame \<Rightarrow> ustr \<Rightarrow> exn + int \<times> ustr" where
  "insert_new_records L db df entity =
     (case insert_new_records_body L db df entity of
        Inr result \<Rightarrow> Inr result
      | Inl exc \<Rightarrow>
          (case (if connected db then rollback db else None) of
             Some rb \<Rightarrow> Inl rb
           | None \<Rightarrow> Inr (0, u ''Error processing entity '' @ entity @ u '': '' @ exn_text exc)))"

text \<open>
  The identity triple of a persisted row, and rows whose three key cells are strings with
  no \<open>|\<close> (code point 124) in the title and in the date.
\<close>

definition str_row :: "(ustr \<Rightarrow> cell) \<Rightarrow> bool" where
  "str_row r \<longleftrightarrow> (\<exists>t c l. subset_key r = (CStr t, CStr c, CStr l) \<and> 124 \<notin> set t \<and> 124 \<notin> set c)"

definition db_triple :: "db_row \<Rightarrow> cell \<times> cell \<times> cell" where
  "db_triple p = (db_title p, db_created_at p, db_external_link p)"

definition str_db_row :: "db_row \<Rightarrow> bool" where
  "str_db_row p \<longleftrightarrow> (\<exists>t c l. db_triple p = (CStr t, CStr c, CStr l) \<and> 124 \<notin> set t \<and> 124 \<notin> set c)"

section \<open>lambda.py: the synchronous handler\<close>





text \<open>\<open>pd.DataFrame(all_normas_data)\<close>: one column for each key of the records.\<close>

definition cell_of_str :: "ustr option \<Rightarrow> cell" where
  "cell_of_str s = (case s of None \<Rightarrow> CNull | Some t \<Rightarrow> CStr t)"

definition norma_row :: "norma \<Rightarrow> ustr \<Rightarrow> cell" where
  "norma_row nd =
     (\<lambda>_. CNull)
       (u ''created_at'' := cell_of_str (nd_created_at nd),
        u ''update_at'' := CStr (nd_update_at nd),
        u ''is_active'' := CBool (nd_is_active nd),
        u ''title'' := cell_of_str (nd_title nd),
        u ''gtype'' := cell_of_str (nd_gtype nd),
        u ''entity'' := CStr (nd_entity nd),
        u ''external_link'' := cell_of_str (nd_external_link nd),
        u ''rtype_id'' := (case nd_rtype_id nd of None \<Rightarrow> CNull | Some i \<Rightarrow> CInt i),
        u ''summary'' := cell_of_str (nd_summary nd),
        u ''classification_id'' := CInt (nd_classification_id nd))"

definition norma_columns :: "ustr list" where
  "norma_columns =
     [u ''created_at'', u ''update_at'', u ''is_active'', u ''title'', u ''gtype'', u ''entity'',
      u ''external_link'', u ''rtype_id'', u ''summary'', u ''classification_id'']"

definition frame_of_normas :: "norma list \<Rightarrow> frame" where
  "frame_of_normas nds = \<lparr>columns = norma_columns, rows = map norma_row nds\<rparr>"









section \<open>A library instance and the runs examined\<close>

text \<open>
  An instance of the library on ASCII text, for running the code on concrete inputs:
  letters A to Z are lowered, the digits are 0 to 9, \<open>int\<close> reads an optional sign and
  digits, and \<open>re.compile\<close> knows the four patterns of the default rules.
\<close>

definition ascii_lower :: "nat \<Rightarrow> nat" where
  "ascii_lower c = (if 65 \<le> c \<and> c \<le> 90 then c + 32 else c)"

definition ascii_upper :: "nat \<Rightarrow> nat" where
  "ascii_upper c = (if 97 \<le> c \<and> c \<le> 122 then c - 32 else c)"

definition ascii_digit :: "nat \<Rightarrow> nat option" where
  "ascii_digit c = (if 48 \<le> c \<and> c \<le> 57 then Some (c - 48) else None)"

fun digits_value :: "nat \<Rightarrow> ustr \<Rightarrow> nat option" where
  "digits_value acc [] = Some acc"
| "digits_value acc (c # cs) =
     (case ascii_digit c of None \<Rightarrow> None | Some d \<Rightarrow> digits_value (10 * acc + d) cs)"

definition ascii_int :: "ustr \<Rightarrow> int option" where
  "ascii_int t =
     (case t of
        [] \<Rightarrow> None
      | c # cs \<Rightarrow>
          if c = 45 then (if cs = [] then None else map_option (\<lambda>n. - int n) (digits_value 0 cs))
          else if c = 43 then (if cs = [] then None else map_option int (digits_value 0 cs))
          else map_option int (digits_value 0 t))"

text \<open>A pattern as a sequence of items, matched at the start of the text.\<close>

datatype item = Digit | Chr nat

fun match_items :: "item list \<Rightarrow> ustr \<Rightarrow> ustr option" where
  "match_items [] s = Some s"
| "match_items (i # is) [] = None"
| "match_items (Digit # is) (c # cs) = (if ascii_digit c \<noteq> None then match_items is cs else None)"
| "match_items (Chr x # is) (c # cs) = (if c = x then match_items is cs else None)"

definition dot_plus :: "ustr \<Rightarrow> bool" where
  "dot_plus s = (case s of [] \<Rightarrow> False | c # _ \<Rightarrow> c \<noteq> 10)"

definition date_items :: "item list" where
  "date_items = [Digit, Digit, Digit, Digit, Chr 45, Digit, Digit, Chr 45, Digit, Digit]"

definition time_items :: "item list" where
  "time_items = [Digit, Digit, Chr 58, Digit, Digit, Chr 58, Digit, Digit]"

definition match_link :: "ustr \<Rightarrow> bool" where
  "match_link s =
     (case match_items (map Chr (u ''https://'')) s of
        Some rest \<Rightarrow> dot_plus rest
      | None \<Rightarrow>
          (case match_items (map Chr (u ''http://'')) s of
             Some rest \<Rightarrow> dot_plus rest
           | None \<Rightarrow> False))"

definition sample_re_compile :: "ustr \<Rightarrow> exn + (ustr \<Rightarrow> bool)" where
  "sample_re_compile p =
     (if p = u ''.+'' then Inr dot_plus
      else if p = u ''^'' @ re_date then Inr (\<lambda>s. match_items date_items s \<noteq> None)
      else if p = u ''^https?://.+'' then Inr match_link
      else if p = u ''^'' @ re_date @ u '' '' @ re_time @ u ''$''
        then Inr (\<lambda>s. case match_items (date_items @ Chr 32 # time_items) s of
                         None \<Rightarrow> False | Some rest \<Rightarrow> rest = [] \<or> rest = [10])
      else Inl (Exn (u ''pattern outside this instance'')))"

definition sample_str :: "cell \<Rightarrow> ustr" where
  "sample_str c =
     (case c of
        CInt i \<Rightarrow> str_int i
      | CBool b \<Rightarrow> (if b then u ''True'' else u ''False'')
      | CNull \<Rightarrow> u ''None''
      | _ \<Rightarrow> [])"

definition sample_lib :: pylib where
  "sample_lib =
     \<lparr>str_lower = map ascii_lower,
      str_capitalize = (\<lambda>s. case s of [] \<Rightarrow> [] | c # cs \<Rightarrow> ascii_upper c # map ascii_lower cs),
      str_other = sample_str,
      re_compile = sample_re_compile,
      int_of_text = ascii_int,
      float_of_text = (\<lambda>t. if t = u ''nan'' then Some FNan
                            else map_option (\<lambda>i. FNum i 0) (ascii_int t)),
      digit_value = ascii_digit\<rparr>"

text \<open>A row of a batch for the entity, from its title, date and link.\<close>

definition batch_row :: "ustr \<Rightarrow> ustr \<Rightarrow> ustr \<Rightarrow> ustr \<Rightarrow> cell" where
  "batch_row t c l =
     (\<lambda>_. CNull)(u ''title'' := CStr t, u ''created_at'' := CStr c, u ''external_link'' := CStr l,
       u ''entity'' := CStr ENTITY_VALUE)"

definition batch :: "(ustr \<Rightarrow> cell) list \<Rightarrow> frame" where
  "batch rs = \<lparr>columns = [u ''title'', u ''created_at'', u ''external_link'', u ''entity''], rows = rs\<rparr>"

definition persisted :: "ustr \<Rightarrow> ustr \<Rightarrow> ustr \<Rightarrow> db_row" where
  "persisted t c l =
     \<lparr>db_title = CStr t, db_created_at = CStr c, db_entity = CStr ENTITY_VALUE,
      db_external_link = CStr l\<rparr>"

text \<open>
  A connection that holds the given persisted rows, whose insert raises the given
  exception if any, and whose rollback succeeds.
\<close>

definition sample_db :: "db_row list \<Rightarrow> exn option \<Rightarrow> dbm" where
  "sample_db stored insert_exc =
     \<lparr>connected = True,
      select_existing = (\<lambda>entity. Inr stored),
      select_new_ids = (\<lambda>entity n. Inr (map int [1..<Suc (nat n)])),
      executemany = (\<lambda>table_name df. insert_exc),
      rollback = None\<rparr>"

text \<open>
  A table row with a title anchor, its \<open>href\<close>, no summary cell, and a date cell whose
  \<open>span\<close> carries the given \<open>content\<close> attribute; and a site whose page 0 is a table
  of the given rows while every other request fails.
\<close>

definition table_row :: "ustr \<Rightarrow> ustr \<Rightarrow> ustr \<Rightarrow> html_row" where
  "table_row title_text href fecha =
     \<lparr>title_cell = Some (Some \<lparr>a_text = title_text, a_href = Some href\<rparr>),
      summary_cell = None,
      fecha_cell = Some \<lparr>fc_span = Some \<lparr>span_content = Some fecha, span_text = []\<rparr>,
                         fc_text = []\<rparr>\<rparr>"

text \<open>A row with the title \<open>Decreto 1\<close>, a link, and the given date cell.\<close>

definition row_with_date :: "fecha_cell option \<Rightarrow> html_row" where
  "row_with_date fc =
     \<lparr>title_cell = Some (Some \<lparr>a_text = u ''Decreto 1'', a_href = Some (u ''/doc/1'')\<rparr>),
      summary_cell = None,
      fecha_cell = fc\<rparr>"

definition one_page_site :: "html_row list \<Rightarrow> int \<Rightarrow> page" where
  "one_page_site trs page_num = (if page_num = 0 then Table trs else RequestFailed)"

section \<open>The validator, row by row\<close>

text \<open>
  The validator as the specification words it: each cell of a field with a rule is
  coerced when a type is declared, made null when a declared pattern does not match its
  text, and made null when its text is longer than a declared maximum; a field of the
  ruleset that is no column is null; a row is kept when none of its required fields is
  null.
\<close>

definition spec_validate_cell :: "pylib \<Rightarrow> rule \<Rightarrow> cell \<Rightarrow> cell" where
  "spec_validate_cell L config v =
     (let v1 = (case rule_type config of
                  None \<Rightarrow> v
                | Some t \<Rightarrow> if t = [] then v
                            else (case coerce_value L t v of None \<Rightarrow> CNull | Some c \<Rightarrow> c));
          v2 = (case rule_regex config of
                  None \<Rightarrow> v1
                | Some p \<Rightarrow> if p = [] then v1
                            else (case re_compile L p of
                                    Inl exc \<Rightarrow> v1
                                  | Inr regex \<Rightarrow> if regex (fillna_str L v1) then v1 else CNull))
      in (case rule_max_length config of
            None \<Rightarrow> v2
          | Some n \<Rightarrow> if int (length (fillna_str L v2)) \<le> n then v2 else CNull))"

fun spec_validate_row ::
  "pylib \<Rightarrow> ruleset \<Rightarrow> ustr list \<Rightarrow> (ustr \<Rightarrow> cell) \<Rightarrow> (ustr \<Rightarrow> cell)" where
  "spec_validate_row L [] cols r = r"
| "spec_validate_row L ((field, config) # rules) cols r =
     spec_validate_row L rules (if field \<in> set cols then cols else cols @ [field])
       (r(field := (if field \<in> set cols then spec_validate_cell L config (r field) else CNull)))"

definition spec_required :: "ruleset \<Rightarrow> ustr list" where
  "spec_required rules = map fst (filter (\<lambda>fc. rule_required (snd fc)) rules)"

definition spec_keep :: "ruleset \<Rightarrow> (ustr \<Rightarrow> cell) \<Rightarrow> bool" where
  "spec_keep rules r = list_all (\<lambda>f. \<not> isna (r f)) (spec_required rules)"

text \<open>A scraped record with the given title, and two titles of 65 and of 66 characters.\<close>

definition sample_norma :: "ustr \<Rightarrow> norma" where
  "sample_norma t =
     \<lparr>nd_created_at = Some (u ''2024-01-15''), nd_update_at = u ''2024-02-01 10:00:00'',
      nd_is_active = True, nd_title = Some t, nd_gtype = Some (u ''link''),
      nd_entity = u ''Agencia Nacional de Infraestructura'',
      nd_external_link = Some (u ''https://www.ani.gov.co/doc/1''), nd_rtype_id = Some 15,
      nd_summary = None, nd_classification_id = 13\<rparr>"

definition title65 :: ustr where
  "title65 = u ''Resolucion 20243040012345 por la cual se adopta el manual de obra''"

definition title66 :: ustr where
  "title66 = u ''Resolucion 20243040012345 por la cual se adopta el manual de obras''"

definition title_rule :: rule where
  "title_rule = \<lparr>rule_type = Some (u ''string''), rule_regex = Some (u ''.+''),
                  rule_required = True, rule_max_length = Some 65\<rparr>"


section \<open>Evaluating the code on concrete inputs\<close>

lemmas writer_defs =
  insert_new_records_def insert_new_records_body_def records_to_insert_def
  execute_query_existing_def execute_query_new_ids_def duplicate_validation_def
  mark_duplicates_def drop_duplicates_def norm_db_row_def norm_row_def py_str_def
  py_strip_def py_isspace_def row_unique_key_def db_unique_key_def join_key_def
  str_of_cell_def subset_key_def bulk_insert_def is_unique_violation_def drop_columns_def

lemmas sample_defs =
  sample_db_def batch_def batch_row_def persisted_def sample_lib_def u_def ENTITY_VALUE_def
  REGULATIONS_TABLE_def ascii_lower_def

section \<open>The deduplicating writer\<close>

subsection \<open>The counts of the duplicate validation\<close>

lemma length_drop_dups: "length (drop_dups key seen xs) \<le> length xs"
  by (induction xs arbitrary: seen) (auto simp: le_SucI)

lemma duplicate_validation_empty_db:
  "duplicate_validation [] entity_df =
     \<lparr>entity_rows = entity_df, new_records = drop_duplicates entity_df, duplicates_found = 0,
      internal_duplicates = int (length entity_df) - int (length (drop_duplicates entity_df))\<rparr>"
  by (simp add: duplicate_validation_def Let_def)

lemma length_mark_duplicates: "length (mark_duplicates ks rs) = length rs"
  by (simp add: mark_duplicates_def)

text \<open>
  C9, amended: for every persisted state and every batch, \<open>duplicates_found\<close> and
  \<open>internal_duplicates\<close> are at least 0, and together with the number of rows kept
  they add up to the number of rows of the entity.
\<close>

theorem duplicate_counts_account:
  "0 \<le> duplicates_found (duplicate_validation db_df entity_df) \<and>
   0 \<le> internal_duplicates (duplicate_validation db_df entity_df) \<and>
   duplicates_found (duplicate_validation db_df entity_df) +
     internal_duplicates (duplicate_validation db_df entity_df) +
     int (length (new_records (duplicate_validation db_df entity_df))) =
   int (length entity_df)"
proof (cases "db_df = []")
  case True
  then show ?thesis
    using length_drop_dups [of subset_key "[]" entity_df]
    by (simp add: duplicate_validation_empty_db drop_duplicates_def)
next
  case False
  define marked where "marked = mark_duplicates (map db_unique_key db_df) entity_df"
  define new0 where "new0 = filter (\<lambda>r. r (u ''is_duplicate'') \<noteq> CBool True) marked"
  have a: "length new0 \<le> length marked"
    by (simp add: new0_def)
  have b: "length (drop_dups subset_key [] new0) \<le> length new0"
    by (rule length_drop_dups)
  have c: "length marked = length entity_df"
    by (simp add: marked_def length_mark_duplicates)
  show ?thesis
    using False a b c
    by (simp add: duplicate_validation_def drop_duplicates_def Let_def marked_def [symmetric]
        new0_def [symmetric])
qed

text \<open>
  C9 as stated fails: no persisted state and no batch give a negative count.
\<close>

theorem duplicate_counts_never_negative:
  "\<not> (\<exists>db_df entity_df.
        duplicates_found (duplicate_validation db_df entity_df) < 0 \<or>
        internal_duplicates (duplicate_validation db_df entity_df) < 0)"
proof -
  have "0 \<le> duplicates_found (duplicate_validation db_df entity_df) \<and>
        0 \<le> internal_duplicates (duplicate_validation db_df entity_df)"
    for db_df :: "db_row list" and entity_df :: "(ustr \<Rightarrow> cell) list"
  proof (cases "db_df = []")
    case True
    then show ?thesis
      using length_drop_dups [of subset_key "[]" entity_df]
      by (simp add: duplicate_validation_empty_db drop_duplicates_def)
  next
    case False
    have "length (drop_dups subset_key []
            (filter (\<lambda>r. r (u ''is_duplicate'') \<noteq> CBool True)
               (mark_duplicates (map db_unique_key db_df) entity_df)))
          \<le> length (filter (\<lambda>r. r (u ''is_duplicate'') \<noteq> CBool True)
               (mark_duplicates (map db_unique_key db_df) entity_df))"
      by (rule length_drop_dups)
    moreover have "length (filter (\<lambda>r. r (u ''is_duplicate'') \<noteq> CBool True)
               (mark_duplicates (map db_unique_key db_df) entity_df))
          \<le> length (mark_duplicates (map db_unique_key db_df) entity_df)"
      by simp
    ultimately show ?thesis
      using False by (simp add: duplicate_validation_def drop_duplicates_def Let_def)
  qed
  then show ?thesis
    by (metis not_less)
qed

text \<open>
  A run of the accounting: one persisted record, and a batch with a copy of it, a new
  record and a repeat of the new record.
\<close>

theorem duplicate_counts_account_witness:
  "duplicates_found (duplicate_validation
      [norm_db_row sample_lib (persisted (u ''A'') (u ''2024-01-01'') (u ''http://x''))]
      (map (norm_row sample_lib)
         [batch_row (u ''A'') (u ''2024-01-01'') (u ''http://x''),
          batch_row (u ''B'') (u ''2024-01-02'') (u ''http://y''),
          batch_row (u ''B'') (u ''2024-01-02'') (u ''http://y'')])) = 1 \<and>
   internal_duplicates (duplicate_validation
      [norm_db_row sample_lib (persisted (u ''A'') (u ''2024-01-01'') (u ''http://x''))]
      (map (norm_row sample_lib)
         [batch_row (u ''A'') (u ''2024-01-01'') (u ''http://x''),
          batch_row (u ''B'') (u ''2024-01-02'') (u ''http://y''),
          batch_row (u ''B'') (u ''2024-01-02'') (u ''http://y'')])) = 1"
  using duplicate_counts_account
    [of "[norm_db_row sample_lib (persisted (u ''A'') (u ''2024-01-01'') (u ''http://x''))]"
        "map (norm_row sample_lib)
           [batch_row (u ''A'') (u ''2024-01-01'') (u ''http://x''),
            batch_row (u ''B'') (u ''2024-01-02'') (u ''http://y''),
            batch_row (u ''B'') (u ''2024-01-02'') (u ''http://y'')]"]
  by (simp add: writer_defs sample_defs Let_def)

subsection \<open>The partition without the separator\<close>

text \<open>
  When no title and no date holds the character \<open>|\<close>, the joined strings are equal only
  for equal triples, and the rows kept for the insert are the first occurrences of the
  triples that are not persisted.
\<close>

lemma separator_split:
  "x \<notin> set a \<Longrightarrow> x \<notin> set b \<Longrightarrow> a @ x # r = b @ x # r' \<Longrightarrow> a = b \<and> r = r'"
proof (induction a arbitrary: b)
  case Nil
  then show ?case by (cases b) auto
next
  case (Cons y a)
  then show ?case by (cases b) auto
qed

lemma join_key_inject:
  assumes "124 \<notin> set t1" and "124 \<notin> set c1" and "124 \<notin> set t2" and "124 \<notin> set c2"
    and "join_key (CStr t1) (CStr c1) (CStr l1) = join_key (CStr t2) (CStr c2) (CStr l2)"
  shows "t1 = t2 \<and> c1 = c2 \<and> l1 = l2"
proof -
  from assms(5) have e: "t1 @ 124 # (c1 @ 124 # l1) = t2 @ 124 # (c2 @ 124 # l2)"
    by (simp add: join_key_def str_of_cell_def u_def)
  have 1: "t1 = t2 \<and> c1 @ 124 # l1 = c2 @ 124 # l2"
    by (rule separator_split [OF assms(1) assms(3) e])
  then have 2: "c1 @ 124 # l1 = c2 @ 124 # l2"
    by simp
  have "c1 = c2 \<and> l1 = l2"
    by (rule separator_split [OF assms(2) assms(4) 2])
  with 1 show ?thesis by simp
qed

lemma drop_dups_map: "map key (drop_dups key seen xs) = drop_dups id seen (map key xs)"
  by (induction xs arbitrary: seen) auto

lemma drop_dups_nil_iff: "drop_dups key seen xs = [] \<longleftrightarrow> key ` set xs \<subseteq> set seen"
  by (induction xs arbitrary: seen) auto

lemma drop_dups_distinct: "distinct (drop_dups id seen xs) \<and> set (drop_dups id seen xs) = set xs - set seen"
  by (induction xs arbitrary: seen) auto

lemma subset_key_marked:
  "map subset_key (mark_duplicates ks rs) = map subset_key rs"
  by (simp add: mark_duplicates_def subset_key_def u_def Let_def)

lemma key_member_iff:
  assumes "str_row r" and "\<forall>p \<in> set db_df. str_db_row p"
  shows "row_unique_key r \<in> set (map db_unique_key db_df) \<longleftrightarrow>
         subset_key r \<in> set (map db_triple db_df)"
proof
  assume "row_unique_key r \<in> set (map db_unique_key db_df)"
  then obtain p where p: "p \<in> set db_df" "row_unique_key r = db_unique_key p" by auto
  from assms(1) obtain t c l where r: "subset_key r = (CStr t, CStr c, CStr l)"
    "124 \<notin> set t" "124 \<notin> set c" by (auto simp: str_row_def)
  from assms(2) p(1) obtain t' c' l' where q: "db_triple p = (CStr t', CStr c', CStr l')"
    "124 \<notin> set t'" "124 \<notin> set c'" by (auto simp: str_db_row_def)
  have "join_key (CStr t) (CStr c) (CStr l) = join_key (CStr t') (CStr c') (CStr l')"
    using p(2) r(1) q(1) by (simp add: row_unique_key_def db_unique_key_def subset_key_def db_triple_def)
  from join_key_inject [OF r(2,3) q(2,3) this] have "subset_key r = db_triple p"
    using r(1) q(1) by simp
  then show "subset_key r \<in> set (map db_triple db_df)"
    using p(1) by auto
next
  assume "subset_key r \<in> set (map db_triple db_df)"
  then obtain p where p: "p \<in> set db_df" "subset_key r = db_triple p" by auto
  then have "row_unique_key r = db_unique_key p"
    by (simp add: row_unique_key_def db_unique_key_def subset_key_def db_triple_def)
  then show "row_unique_key r \<in> set (map db_unique_key db_df)"
    using p(1) by auto
qed

lemma new_records_partition:
  assumes "\<forall>r \<in> set entity_df. str_row r" and "\<forall>p \<in> set db_df. str_db_row p"
  shows "map subset_key (new_records (duplicate_validation db_df entity_df)) =
           drop_dups id []
             (filter (\<lambda>k. k \<notin> set (map db_triple db_df)) (map subset_key entity_df))"
proof (cases "db_df = []")
  case True
  then show ?thesis
    by (simp add: duplicate_validation_def drop_duplicates_def drop_dups_map Let_def)
next
  case False
  let ?ks = "map db_unique_key db_df"
  have f: "filter (\<lambda>r. r (u ''is_duplicate'') \<noteq> CBool True) (mark_duplicates ?ks entity_df) =
           mark_duplicates ?ks (filter (\<lambda>r. row_unique_key r \<notin> set ?ks) entity_df)"
    by (simp add: mark_duplicates_def filter_map comp_def Let_def)
  have g: "filter (\<lambda>r. row_unique_key r \<notin> db_unique_key ` set db_df) entity_df =
           filter (\<lambda>r. subset_key r \<notin> db_triple ` set db_df) entity_df"
    using key_member_iff [OF _ assms(2)] assms(1) by (intro filter_cong) auto
  show ?thesis
    using False
    by (simp add: duplicate_validation_def drop_duplicates_def drop_dups_map Let_def f g
        subset_key_marked filter_map comp_def)
qed


text \<open>
  The number of rows kept is the number of distinct triples of the batch that are not
  persisted, and a batch whose triples are all persisted leaves nothing to insert.
\<close>

lemma new_records_count:
  assumes "\<forall>r \<in> set entity_df. str_row r" and "\<forall>p \<in> set db_df. str_db_row p"
  shows "length (new_records (duplicate_validation db_df entity_df)) =
           card (subset_key ` set entity_df - db_triple ` set db_df)"
proof -
  let ?xs = "filter (\<lambda>k. k \<notin> set (map db_triple db_df)) (map subset_key entity_df)"
  have "length (new_records (duplicate_validation db_df entity_df)) =
        length (map subset_key (new_records (duplicate_validation db_df entity_df)))"
    by simp
  also have "\<dots> = length (drop_dups id [] ?xs)"
    by (simp only: new_records_partition [OF assms])
  also have "\<dots> = card (set (drop_dups id [] ?xs))"
  proof -
    have "distinct (drop_dups id [] ?xs)"
      using drop_dups_distinct [of "[]" ?xs] by blast
    then show ?thesis by (rule distinct_card [symmetric])
  qed
  also have "set (drop_dups id [] ?xs) = subset_key ` set entity_df - db_triple ` set db_df"
    using drop_dups_distinct [of "[]" ?xs] by auto
  finally show ?thesis .
qed

lemma new_records_second_run:
  assumes "\<forall>r \<in> set entity_df. str_row r" and "\<forall>p \<in> set db_df. str_db_row p"
    and "subset_key ` set entity_df \<subseteq> db_triple ` set db_df"
  shows "new_records (duplicate_validation db_df entity_df) = []"
proof -
  have "subset_key ` set entity_df - db_triple ` set db_df = {}"
    using assms(3) by blast
  then have "length (new_records (duplicate_validation db_df entity_df)) = 0"
    by (simp only: new_records_count [OF assms(1,2)] card.empty)
  then show ?thesis by simp
qed

subsection \<open>The joined key\<close>

text \<open>
  C1 at a batch the code can receive. The persisted record has the title
  \<open>A|2024-01-01|http://x\<close> and the link \<open>http://y\<close>; the incoming record has the title
  \<open>A\<close> and the link \<open>http://x|2024-01-01|http://y\<close>, both of the date 2024-01-01. The
  identity triples differ, the strings joined with \<open>|\<close> are equal, and the writer
  inserts nothing: the new record is taken for a duplicate.
\<close>

theorem insert_new_records_key_collision:
  "subset_key (norm_row sample_lib
       (batch_row (u ''A'') (u ''2024-01-01'') (u ''http://x|2024-01-01|http://y''))) \<noteq>
     (CStr (u ''A|2024-01-01|http://x''), CStr (u ''2024-01-01''), CStr (u ''http://y'')) \<and>
   row_unique_key (norm_row sample_lib
       (batch_row (u ''A'') (u ''2024-01-01'') (u ''http://x|2024-01-01|http://y''))) =
     db_unique_key (norm_db_row sample_lib
       (persisted (u ''A|2024-01-01|http://x'') (u ''2024-01-01'') (u ''http://y''))) \<and>
   insert_new_records sample_lib
     (sample_db [persisted (u ''A|2024-01-01|http://x'') (u ''2024-01-01'') (u ''http://y'')] None)
     (batch [batch_row (u ''A'') (u ''2024-01-01'') (u ''http://x|2024-01-01|http://y'')])
     ENTITY_VALUE =
   Inr (0, u ''No new records found for entity '' @ ENTITY_VALUE @
           u '' after duplicate validation'')"
  by (simp add: writer_defs sample_defs Let_def)

subsection \<open>A uniqueness violation of the insert\<close>

text \<open>
  C4: when the writer reaches the bulk insert and the insert raises an error whose text
  holds \<open>duplicate\<close> or \<open>unique\<close>, \<open>insert_new_records\<close> raises nothing and returns the
  count 0 with the message that some records were duplicates and skipped.
\<close>

theorem unique_violation_is_reported:
  assumes "records_to_insert L db df entity = Inr (Inr (to_insert, res, n))"
    and "bulk_insert db to_insert REGULATIONS_TABLE = Inl insert_error"
    and "is_unique_violation L insert_error"
  shows "insert_new_records L db df entity =
    Inr (0, u ''Some records for entity '' @ entity @ u '' were duplicates and skipped'')"
  using assms by (simp add: insert_new_records_def insert_new_records_body_def)

theorem unique_violation_is_reported_witness:
  "(case records_to_insert sample_lib
           (sample_db [] (Some (Exn (u ''duplicate key value violates unique constraint''))))
           (batch [batch_row (u ''A'') (u ''2024-01-01'') (u ''http://x'')]) ENTITY_VALUE of
      Inr (Inr (to_insert, res, n)) \<Rightarrow>
        bulk_insert
          (sample_db [] (Some (Exn (u ''duplicate key value violates unique constraint''))))
          to_insert REGULATIONS_TABLE =
        Inl (Exn (u ''Error inserting into regulations: duplicate key value violates unique constraint''))
    | _ \<Rightarrow> False) \<and>
   is_unique_violation sample_lib
     (Exn (u ''Error inserting into regulations: duplicate key value violates unique constraint'')) \<and>
   insert_new_records sample_lib
     (sample_db [] (Some (Exn (u ''duplicate key value violates unique constraint''))))
     (batch [batch_row (u ''A'') (u ''2024-01-01'') (u ''http://x'')]) ENTITY_VALUE =
   Inr (0, u ''Some records for entity '' @ ENTITY_VALUE @ u '' were duplicates and skipped'')"
proof -
  let ?db = "sample_db [] (Some (Exn (u ''duplicate key value violates unique constraint'')))"
  let ?df = "batch [batch_row (u ''A'') (u ''2024-01-01'') (u ''http://x'')]"
  let ?e = "Exn (u ''Error inserting into regulations: duplicate key value violates unique constraint'')"
  obtain to_insert res n
    where h1: "records_to_insert sample_lib ?db ?df ENTITY_VALUE = Inr (Inr (to_insert, res, n))"
    by (simp add: writer_defs sample_defs Let_def)
  have h2: "bulk_insert ?db to_insert REGULATIONS_TABLE = Inl ?e"
    by (simp add: bulk_insert_def sample_defs)
  have h3: "is_unique_violation sample_lib ?e"
    by (simp add: is_unique_violation_def sample_defs)
  show ?thesis
    using unique_violation_is_reported [OF h1 h2 h3] h1 h2 h3 by simp
qed

section \<open>The change probe\<close>

lemmas strptime_defs =
  strptime_date_def strptime_datetime_def re_ymd_hms_def re_ymd_def re_hms_def re_Y_def
  re_m_def re_d_def re_H_def re_M_def re_S_def two_def alt_def any_digit_def digit_in_def
  lit_def mk_datetime_def days_in_month_def is_leap_def web_date_of_def py_split_def
  coerce_date_text_def

lemmas extract_defs =
  scrape_page_def scrape_row_def extract_title_and_link_def extract_summary_def
  extract_creation_date_def created_at_of_def is_valid_created_at_def clean_quotes_def
  replace_char_def quotes_map_def quotes_pattern_def new_norma_def truthy_str_def
  get_rtype_id_def CLASSIFICATION_KEYWORDS_def DEFAULT_RTYPE_ID_def zfill2_def
  FIXED_CLASSIFICATION_ID_def map_filter_def table_row_def one_page_site_def
  py_strip_def py_split_def py_isspace_def

lemmas lib_defs = sample_lib_def ascii_lower_def ascii_upper_def ascii_digit_def u_def

lemma scrape_row_valid:
  "scrape_row L now row = Some nd \<Longrightarrow> is_valid_created_at (nd_created_at nd)"
  by (auto simp: scrape_row_def extract_creation_date_def Let_def split: prod.splits if_splits)

lemma scrape_page_valid:
  "r \<in> set (scrape_page L now pg) \<Longrightarrow> is_valid_created_at (nd_created_at r)"
  by (cases pg) (auto simp: scrape_page_def map_filter_def dest: scrape_row_valid)

lemma is_valid_truthy: "is_valid_created_at v \<Longrightarrow> truthy_str v"
  by (auto simp: is_valid_created_at_def truthy_str_def split: option.splits if_splits)

lemma check_records_no_history:
  "r \<in> set recs \<Longrightarrow> is_valid_created_at (nd_created_at r) \<Longrightarrow> nd_created_at r = Some s \<Longrightarrow>
   web_date_of L s \<noteq> None \<Longrightarrow> check_records L None recs"
proof (induction recs)
  case Nil
  then show ?case by simp
next
  case (Cons a recs)
  show ?case
  proof (cases "r = a")
    case True
    with Cons.prems show ?thesis
      by (auto simp: is_valid_truthy split: option.splits)
  next
    case False
    with Cons have "check_records L None recs" by simp
    then show ?thesis
      by (auto split: option.splits)
  qed
qed

lemma check_pages_hit:
  "p \<in> set ps \<Longrightarrow> check_records L latest (scrape_page L now (site p)) \<Longrightarrow>
   check_pages L now site latest ps"
  by (induction ps) auto

lemma check_records_none:
  "(\<And>r s. r \<in> set recs \<Longrightarrow> nd_created_at r = Some s \<Longrightarrow> web_date_of L s = None) \<Longrightarrow>
   \<not> check_records L latest recs"
proof (induction recs)
  case Nil
  then show ?case by simp
next
  case (Cons a recs)
  have rest: "\<not> check_records L latest recs"
    using Cons by auto
  show ?case
  proof (cases "nd_created_at a")
    case None
    then show ?thesis using rest by (simp add: truthy_str_def)
  next
    case (Some s)
    then have "web_date_of L s = None" using Cons.prems by auto
    then show ?thesis using rest Some by simp
  qed
qed

lemma check_pages_none:
  "(\<And>p. p \<in> set ps \<Longrightarrow> \<not> check_records L latest (scrape_page L now (site p))) \<Longrightarrow>
   \<not> check_pages L now site latest ps"
  by (induction ps) auto

text \<open>
  C3: when the accessor of the latest persisted date raises, the probe returns true; and
  when the accessor returns no date and a page among the first \<open>n\<close> yields a record
  whose creation date the probe can parse, the probe returns true.
\<close>

theorem probe_conservative:
  "(fetch = Inl exc \<longrightarrow> check_for_new_content L now site fetch n) \<and>
   (fetch = Inr None \<and> 0 \<le> p \<and> p < n \<and> r \<in> set (scrape_page L now (site p)) \<and>
    nd_created_at r = Some s \<and> web_date_of L s \<noteq> None \<longrightarrow>
    check_for_new_content L now site fetch n)"
proof (intro conjI impI)
  assume "fetch = Inl exc"
  then show "check_for_new_content L now site fetch n"
    by (simp add: check_for_new_content_def)
next
  assume a: "fetch = Inr None \<and> 0 \<le> p \<and> p < n \<and> r \<in> set (scrape_page L now (site p)) \<and>
    nd_created_at r = Some s \<and> web_date_of L s \<noteq> None"
  then have "check_records L None (scrape_page L now (site p))"
    using check_records_no_history scrape_page_valid by blast
  moreover have "p \<in> set [0..n - 1]" using a by simp
  ultimately have "check_pages L now site None [0..n - 1]"
    by (rule check_pages_hit [rotated])
  then show "check_for_new_content L now site fetch n"
    using a by (simp add: check_for_new_content_def normalize_datetime_def)
qed

lemma sample_scrape:
  "scrape_page sample_lib (u ''2024-02-01 10:00:00'')
     (Table [table_row (u ''Decreto 1'') (u ''/doc/1'') (u ''2024-01-15T00:00:00-05:00'')]) =
   [\<lparr>nd_created_at = Some (u ''2024-01-15''), nd_update_at = u ''2024-02-01 10:00:00'',
     nd_is_active = True, nd_title = Some (u ''Decreto 1''), nd_gtype = Some (u ''link''),
     nd_entity = u ''Agencia Nacional de Infraestructura'',
     nd_external_link = Some (u ''https://www.ani.gov.co/doc/1''), nd_rtype_id = Some 14,
     nd_summary = None, nd_classification_id = 13\<rparr>]"
  by (simp add: extract_defs lib_defs Let_def)

lemma sample_web_date:
  "web_date_of sample_lib (u ''2024-01-15'') =
   Some \<lparr>dt_year = 2024, dt_month = 1, dt_day = 15, dt_hour = 0, dt_minute = 0,
         dt_second = 0, dt_microsecond = 0, dt_tzinfo = None\<rparr>"
  by (simp add: strptime_defs lib_defs py_isspace_def)

theorem probe_conservative_witness:
  "check_for_new_content sample_lib (u ''2024-02-01 10:00:00'') (\<lambda>page_num. RequestFailed)
     (Inl (Exn (u ''Could not establish database connection''))) 3 \<and>
   map nd_created_at (scrape_page sample_lib (u ''2024-02-01 10:00:00'')
     (one_page_site [table_row (u ''Decreto 1'') (u ''/doc/1'') (u ''2024-01-15T00:00:00-05:00'')] 0))
     = [Some (u ''2024-01-15'')] \<and>
   web_date_of sample_lib (u ''2024-01-15'') \<noteq> None \<and>
   check_for_new_content sample_lib (u ''2024-02-01 10:00:00'')
     (one_page_site [table_row (u ''Decreto 1'') (u ''/doc/1'') (u ''2024-01-15T00:00:00-05:00'')])
     (Inr None) 3"
proof -
  let ?now = "u ''2024-02-01 10:00:00''"
  let ?site = "one_page_site
     [table_row (u ''Decreto 1'') (u ''/doc/1'') (u ''2024-01-15T00:00:00-05:00'')]"
  let ?r = "hd (scrape_page sample_lib ?now (?site 0))"
  have sp: "scrape_page sample_lib ?now (?site 0) = [?r]"
    by (simp add: one_page_site_def sample_scrape)
  have r: "nd_created_at ?r = Some (u ''2024-01-15'')"
    by (simp add: one_page_site_def sample_scrape)
  have a: "check_for_new_content sample_lib ?now (\<lambda>page_num. RequestFailed)
     (Inl (Exn (u ''Could not establish database connection''))) 3"
    using probe_conservative
      [of "Inl (Exn (u ''Could not establish database connection''))"
          "Exn (u ''Could not establish database connection'')"]
    by simp
  have m: "?r \<in> set (scrape_page sample_lib ?now (?site 0))"
    by (subst sp) simp
  have w: "web_date_of sample_lib (u ''2024-01-15'') \<noteq> None"
    by (simp add: sample_web_date)
  have i: "(0::int) \<le> 0 \<and> (0::int) < 3"
    by simp
  have b: "check_for_new_content sample_lib ?now ?site (Inr None) 3"
    using probe_conservative [of "Inr None" _ sample_lib ?now ?site 3 0 ?r "u ''2024-01-15''"]
      m r w i
    by blast
  have c: "map nd_created_at (scrape_page sample_lib ?now (?site 0)) = [Some (u ''2024-01-15'')]"
    by (simp add: one_page_site_def sample_scrape)
  show ?thesis
    using a b c w by blast
qed

text \<open>
  C10: when the accessor succeeds and no record of the first \<open>n\<close> pages has a creation
  date the probe can parse, the probe returns false, whatever the accessor returned, also
  no date at all.
\<close>

theorem probe_false_without_dates:
  assumes "fetch = Inr latest"
    and "\<And>p r s. 0 \<le> p \<Longrightarrow> p < n \<Longrightarrow> r \<in> set (scrape_page L now (site p)) \<Longrightarrow>
           nd_created_at r = Some s \<Longrightarrow> web_date_of L s = None"
  shows "\<not> check_for_new_content L now site fetch n"
proof -
  have "\<not> check_records L (normalize_datetime latest) (scrape_page L now (site p))"
    if "p \<in> set [0..n - 1]" for p
    using that assms(2) by (intro check_records_none) auto
  then have "\<not> check_pages L now site (normalize_datetime latest) [0..n - 1]"
    by (rule check_pages_none)
  then show ?thesis
    using assms(1) by (simp add: check_for_new_content_def)
qed

lemma sample_scrape_raw:
  "map nd_created_at (scrape_page sample_lib (u ''2024-02-01 10:00:00'')
     (Table [table_row (u ''Decreto 1'') (u ''/doc/1'') (u ''pendiente'')])) =
   [Some (u ''pendiente'')]"
  by (simp add: extract_defs lib_defs Let_def)

lemma sample_web_date_raw: "web_date_of sample_lib (u ''pendiente'') = None"
  by (simp add: strptime_defs lib_defs py_isspace_def)

theorem probe_false_without_dates_witness:
  "\<not> check_for_new_content sample_lib (u ''2024-02-01 10:00:00'') (\<lambda>page_num. RequestFailed)
       (Inr None) 3 \<and>
   \<not> check_for_new_content sample_lib (u ''2024-02-01 10:00:00'')
       (one_page_site [table_row (u ''Decreto 1'') (u ''/doc/1'') (u ''pendiente'')])
       (Inr None) 3"
proof -
  let ?now = "u ''2024-02-01 10:00:00''"
  let ?site = "one_page_site [table_row (u ''Decreto 1'') (u ''/doc/1'') (u ''pendiente'')]"
  have a: "\<not> check_for_new_content sample_lib ?now (\<lambda>page_num. RequestFailed) (Inr None) 3"
    by (rule probe_false_without_dates [where latest = None]) (simp_all add: scrape_page_def)
  have "web_date_of sample_lib s = None"
    if "r \<in> set (scrape_page sample_lib ?now (?site p))" and "nd_created_at r = Some s"
    for p r s
  proof (cases "p = 0")
    case True
    then have "nd_created_at r \<in> set (map nd_created_at (scrape_page sample_lib ?now
        (Table [table_row (u ''Decreto 1'') (u ''/doc/1'') (u ''pendiente'')])))"
      using that(1) by (simp add: one_page_site_def)
    then have "s = u ''pendiente''"
      using that(2) by (simp add: sample_scrape_raw)
    then show ?thesis by (simp add: sample_web_date_raw)
  next
    case False
    then show ?thesis using that(1) by (simp add: one_page_site_def scrape_page_def)
  qed
  then have b: "\<not> check_for_new_content sample_lib ?now ?site (Inr None) 3"
    by (intro probe_false_without_dates [where latest = None]) auto
  show ?thesis using a b by simp
qed

section \<open>The validator, cell by cell\<close>

lemma zip_map_same: "zip (map f xs) (map g xs) = map (\<lambda>x. (f x, g x)) xs"
  by (induction xs) auto

lemma zip_map_self: "zip xs (map g xs) = map (\<lambda>x. (x, g x)) xs"
  by (induction xs) auto

lemma where_mask_map:
  "where_mask (map f xs) (map g xs) = map (\<lambda>x. if g x then f x else CNull) xs"
  by (simp add: where_mask_def zip_map_same)

lemma and_mask_map: "and_mask (map f xs) (map g xs) = map (\<lambda>x. f x \<and> g x) xs"
  by (simp add: and_mask_def zip_map_same)

lemma replicate_as_map: "replicate (length xs) c = map (\<lambda>_. c) xs"
  by (induction xs) auto

text \<open>The three checks on a series are the cell function on each of its values.\<close>

lemma checks_cellwise:
  assumes "regex_check L config (type_check L config (map f xs, map m xs)) = Inr cm1"
  shows "fst (length_check L config cm1) = map (\<lambda>x. spec_validate_cell L config (f x)) xs"
proof -
  define f1 where "f1 = (\<lambda>x. case rule_type config of None \<Rightarrow> f x
                | Some t \<Rightarrow> if t = [] then f x
                            else (case coerce_value L t (f x) of None \<Rightarrow> CNull | Some c \<Rightarrow> c))"
  define m1 where "m1 = (\<lambda>x. case rule_type config of None \<Rightarrow> m x
                | Some t \<Rightarrow> if t = [] then m x else (m x \<and> coerce_value L t (f x) \<noteq> None))"
  have t: "type_check L config (map f xs, map m xs) = (map f1 xs, map m1 xs)"
    by (cases "rule_type config")
       (auto simp: type_check_def coerce_type_def and_mask_map comp_def f1_def m1_def)
  define f2 where "f2 = (\<lambda>x. case rule_regex config of None \<Rightarrow> f1 x
                | Some p \<Rightarrow> if p = [] then f1 x
                            else (case re_compile L p of
                                    Inl exc \<Rightarrow> f1 x
                                  | Inr regex \<Rightarrow> if regex (fillna_str L (f1 x)) then f1 x else CNull))"
  have r: "fst cm1 = map f2 xs"
    using assms unfolding t
    by (cases "rule_regex config")
       (auto simp: regex_check_def where_mask_map and_mask_map comp_def Let_def f2_def
             split: if_splits sum.splits)
  have spec: "spec_validate_cell L config (f x) =
      (case rule_max_length config of
         None \<Rightarrow> f2 x
       | Some n \<Rightarrow> if int (length (fillna_str L (f2 x))) \<le> n then f2 x else CNull)" for x
    unfolding spec_validate_cell_def f1_def f2_def Let_def by (rule refl)
  show ?thesis
    by (cases "rule_max_length config")
       (simp_all add: length_check_def r where_mask_map spec Let_def comp_def)
qed


lemma field_step_rows:
  assumes "field_step L (field, config) st = Inr st'"
  shows "rows (df_clean st') =
           map (\<lambda>r. r(field := (if field \<in> set (columns (df_clean st))
                                  then spec_validate_cell L config (r field) else CNull)))
               (rows (df_clean st))"
    and "columns (df_clean st') =
           (if field \<in> set (columns (df_clean st)) then columns (df_clean st)
            else columns (df_clean st) @ [field])"
    and "required_fields st' =
           required_fields st @ (if rule_required config then [field] else [])"
proof -
  let ?xs = "rows (df_clean st)"
  show "columns (df_clean st') =
           (if field \<in> set (columns (df_clean st)) then columns (df_clean st)
            else columns (df_clean st) @ [field])"
    using assms
    by (auto simp: field_step_def Let_def set_column_def split: if_splits sum.splits prod.splits)
  show "required_fields st' =
           required_fields st @ (if rule_required config then [field] else [])"
    using assms
    by (auto simp: field_step_def Let_def split: if_splits sum.splits prod.splits)
  show "rows (df_clean st') =
           map (\<lambda>r. r(field := (if field \<in> set (columns (df_clean st))
                                  then spec_validate_cell L config (r field) else CNull)))
               ?xs"
  proof (cases "field \<in> set (columns (df_clean st))")
    case False
    then show ?thesis
      using assms
      by (auto simp: field_step_def Let_def set_column_def replicate_as_map zip_map_self)
  next
    case True
    obtain cm1 where cm1: "regex_check L config
        (type_check L config (map (\<lambda>r. r field) ?xs, map (\<lambda>_. True) ?xs)) = Inr cm1"
      using assms True
      by (auto simp: field_step_def Let_def get_column_def replicate_as_map comp_def
               split: sum.splits)
    have c: "fst (length_check L config cm1) =
               map (\<lambda>r. spec_validate_cell L config (r field)) ?xs"
      using checks_cellwise [OF cm1] .
    have "df_clean st' = set_column (df_clean st) field (fst (length_check L config cm1))"
      using assms True cm1
      by (auto simp: field_step_def Let_def get_column_def replicate_as_map comp_def
               split: sum.splits prod.splits)
    then show ?thesis
      using True by (simp add: c set_column_def zip_map_self)
  qed
qed

lemma field_loop_rows:
  "field_loop L rules st = Inr st' \<Longrightarrow>
   rows (df_clean st') =
     map (spec_validate_row L rules (columns (df_clean st))) (rows (df_clean st)) \<and>
   required_fields st' = required_fields st @ spec_required rules"
proof (induction rules arbitrary: st)
  case Nil
  then show ?case by (simp add: spec_required_def)
next
  case (Cons fc rules)
  obtain field config where fc: "fc = (field, config)" by (cases fc)
  from Cons.prems obtain st1 where s1: "field_step L (field, config) st = Inr st1"
    and s2: "field_loop L rules st1 = Inr st'"
    by (auto simp: fc split: sum.splits)
  from Cons.IH [OF s2] field_step_rows [OF s1]
  show ?case
    by (simp add: fc spec_required_def comp_def)
qed

lemma split_ws_words:
  "\<forall>c \<in> set cur. \<not> py_isspace c \<Longrightarrow> w \<in> set (split_ws cur s) \<Longrightarrow>
   w \<noteq> [] \<and> (\<forall>c \<in> set w. \<not> py_isspace c)"
proof (induction s arbitrary: cur)
  case Nil
  then show ?case by (auto split: if_splits)
next
  case (Cons c cs)
  show ?case
  proof (cases "py_isspace c")
    case True
    with Cons.prems Cons.IH [of "[]"] show ?thesis
      by (auto split: if_splits)
  next
    case False
    with Cons.prems Cons.IH [of "cur @ [c]"] show ?thesis
      by auto
  qed
qed

lemma py_join_ends:
  "\<forall>w \<in> set ws. w \<noteq> [] \<and> (\<forall>c \<in> set w. \<not> py_isspace c) \<Longrightarrow> ws \<noteq> [] \<Longrightarrow>
   py_join sep ws \<noteq> [] \<and> \<not> py_isspace (hd (py_join sep ws)) \<and>
   \<not> py_isspace (last (py_join sep ws))"
proof (induction sep ws rule: py_join.induct)
  case (1 sep)
  then show ?case by simp
next
  case (2 sep w)
  then show ?case by (cases w) auto
next
  case (3 sep w v ws)
  then have "py_join sep (v # ws) \<noteq> [] \<and> \<not> py_isspace (last (py_join sep (v # ws)))"
    by simp
  moreover have "w \<noteq> [] \<and> \<not> py_isspace (hd w)"
    using 3(2) by (cases w) auto
  ultimately show ?case by (cases w) auto
qed

lemma py_strip_id:
  "s = [] \<or> (\<not> py_isspace (hd s) \<and> \<not> py_isspace (last s)) \<Longrightarrow> py_strip s = s"
proof (cases "s = []")
  case True
  then show ?thesis by (simp add: py_strip_def)
next
  case False
  assume "s = [] \<or> (\<not> py_isspace (hd s) \<and> \<not> py_isspace (last s))"
  with False have h: "\<not> py_isspace (hd s)" and l: "\<not> py_isspace (last s)" by auto
  have a: "dropWhile py_isspace s = s"
    using False h by (cases s) auto
  have b: "dropWhile py_isspace (rev s) = rev s"
    using False l by (cases "rev s") (auto simp: last_rev [symmetric] simp del: last_rev)
  show ?thesis by (simp add: py_strip_def a b)
qed

lemma clean_quotes_ends:
  "clean_quotes raw = [] \<or>
   (\<not> py_isspace (hd (clean_quotes raw)) \<and> \<not> py_isspace (last (clean_quotes raw)))"
proof (cases "raw = []")
  case True
  then show ?thesis by (simp add: clean_quotes_def)
next
  case False
  define x where "x = py_strip (filter (\<lambda>c. c \<notin> set quotes_pattern) (fold replace_char quotes_map raw))"
  have cq: "clean_quotes raw = py_join (u '' '') (py_split x)"
    using False by (simp add: clean_quotes_def x_def Let_def)
  have w: "\<forall>w \<in> set (py_split x). w \<noteq> [] \<and> (\<forall>c \<in> set w. \<not> py_isspace c)"
    using split_ws_words [of "[]" _ x] by (auto simp: py_split_def)
  show ?thesis
  proof (cases "py_split x = []")
    case True
    then show ?thesis by (simp add: cq)
  next
    case False
    with py_join_ends [OF w False] show ?thesis by (simp add: cq)
  qed
qed

lemma clean_quotes_strip: "py_strip (clean_quotes raw) = clean_quotes raw"
  using clean_quotes_ends by (rule py_strip_id)

lemma clean_quotes_dot_plus: "clean_quotes raw \<noteq> [] \<Longrightarrow> dot_plus (clean_quotes raw)"
  using clean_quotes_ends [of raw]
  by (cases "clean_quotes raw") (auto simp: dot_plus_def py_isspace_def)

lemma field_step_invalid_other:
  "field_step L (field, config) st = Inr st' \<Longrightarrow> g \<noteq> field \<Longrightarrow>
   invalid_cells st' g = invalid_cells st g"
  by (auto simp: field_step_def Let_def split: if_splits sum.splits prod.splits)

lemma field_loop_invalid_other:
  "field_loop L rules st = Inr st' \<Longrightarrow> g \<notin> fst ` set rules \<Longrightarrow>
   invalid_cells st' g = invalid_cells st g"
proof (induction rules arbitrary: st)
  case Nil
  then show ?case by simp
next
  case (Cons fc rules)
  obtain field config where fc: "fc = (field, config)" by (cases fc)
  from Cons.prems obtain st1 where s1: "field_step L (field, config) st = Inr st1"
    and s2: "field_loop L rules st1 = Inr st'"
    by (auto simp: fc split: sum.splits)
  have "invalid_cells st' g = invalid_cells st1 g"
    using Cons.IH [OF s2] Cons.prems(2) by simp
  also have "\<dots> = invalid_cells st g"
    using field_step_invalid_other [OF s1] Cons.prems(2) by (simp add: fc)
  finally show ?case .
qed

lemma spec_validate_row_other:
  "g \<notin> fst ` set rules \<Longrightarrow> spec_validate_row L rules cols r g = r g"
  by (induction L rules cols r rule: spec_validate_row.induct) auto

lemma default_rules_title:
  "DEFAULT_RULES = (u ''title'', title_rule) # tl DEFAULT_RULES"
  "u ''title'' \<notin> fst ` set (tl DEFAULT_RULES)"
  "u ''title'' \<in> set (spec_required DEFAULT_RULES)"
  by (simp_all add: DEFAULT_RULES_def title_rule_def u_def spec_required_def)

lemma title_cell_validated:
  assumes "re_compile L (u ''.+'') = Inr dot_plus" and "py_strip t = t" and "t \<noteq> []"
    and "dot_plus t"
  shows "spec_validate_cell L title_rule (CStr t) = (if length t \<le> 65 then CStr t else CNull)"
  using assms
  by (simp add: spec_validate_cell_def title_rule_def coerce_value_def py_str_def fillna_str_def
      u_def Let_def)

lemma title_step_invalid:
  assumes "re_compile L (u ''.+'') = Inr dot_plus" and "py_strip t = t" and "t \<noteq> []"
    and "dot_plus t" and "u ''title'' \<in> set (columns (df_clean st))"
    and "rows (df_clean st) = [r]" and "r (u ''title'') = CStr t"
    and "field_step L (u ''title'', title_rule) st = Inr st'"
  shows "invalid_cells st' (u ''title'') =
           (if length t \<le> 65 then invalid_cells st (u ''title'') else Some 1)"
  using assms
  by (auto simp: field_step_def title_rule_def get_column_def type_check_def regex_check_def
      length_check_def coerce_type_def coerce_value_def py_str_def fillna_str_def
      where_mask_def and_mask_def u_def Let_def split: if_splits)

lemmas validation_defs =
  apply_validation_def df_empty_def field_step_def get_column_def set_column_def
  type_check_def regex_check_def length_check_def coerce_type_def coerce_value_def
  py_str_def fillna_str_def where_mask_def and_mask_def dropna_def py_strip_def
  py_isspace_def truthy_def falsy_def

lemmas sample_frame_defs =
  frame_of_normas_def norma_columns_def norma_row_def sample_norma_def title65_def
  title66_def DEFAULT_RULES_def re_date_def re_time_def sample_re_compile_def dot_plus_def
  match_link_def date_items_def time_items_def cell_of_str_def ascii_int_def sample_str_def
  str_int_def str_nat.simps strftime_date_def pad_def

section \<open>The validator\<close>

lemma apply_validation_rows:
  assumes "\<not> df_empty df" and "apply_validation L df rules = Inr (out, st)"
  obtains s where "field_loop L rules
      \<lparr>df_clean = df, invalid_cells = Map.empty, required_fields = []\<rparr> = Inr s"
    and "stats_invalid_cells st = invalid_cells s"
    and "rows out = filter (spec_keep rules) (map (spec_validate_row L rules (columns df)) (rows df))"
proof -
  obtain s where s: "field_loop L rules
      \<lparr>df_clean = df, invalid_cells = Map.empty, required_fields = []\<rparr> = Inr s"
    and o: "out = (if required_fields s \<noteq> [] then dropna (required_fields s) (df_clean s)
                   else df_clean s)"
    and i: "stats_invalid_cells st = invalid_cells s"
    using assms by (auto simp: apply_validation_def Let_def split: sum.splits)
  from field_loop_rows [OF s]
  have r: "rows (df_clean s) = map (spec_validate_row L rules (columns df)) (rows df)"
    and q: "required_fields s = spec_required rules"
    by simp_all
  have "rows out = filter (spec_keep rules) (rows (df_clean s))"
    unfolding o q
    by (cases "spec_required rules = []") (simp_all add: dropna_def spec_keep_def [abs_def])
  then show ?thesis
    using s i r that by simp
qed

text \<open>
  From the first column on: for every input batch with at least one column and every
  ruleset, each output row of \<open>apply_validation\<close> is non-null in every required field;
  the output rows are the input rows after coercion and the nulling by pattern and by
  length, in their order, without those in which a required field is null; a row whose
  nulled fields are all non-required is kept.
\<close>

lemma required_fields_not_null:
  assumes "columns df \<noteq> []"
    and "apply_validation L df rules = Inr (out, st)"
  shows "(\<forall>f \<in> set (spec_required rules). \<forall>r \<in> set (rows out). \<not> isna (r f)) \<and>
         rows out = filter (\<lambda>r. \<forall>f \<in> set (spec_required rules). \<not> isna (r f))
                      (map (spec_validate_row L rules (columns df)) (rows df))"
proof (cases "rows df = []")
  case True
  then show ?thesis using assms by (simp add: apply_validation_def df_empty_def)
next
  case False
  then have "\<not> df_empty df" using assms(1) by (simp add: df_empty_def)
  from apply_validation_rows [OF this assms(2)]
  have "rows out = filter (spec_keep rules) (map (spec_validate_row L rules (columns df)) (rows df))"
    by blast
  then show ?thesis
    by (auto simp: spec_keep_def [abs_def] list_all_iff)
qed

text \<open>
  The scenario of the specification, with a second, optional field: the title of six
  characters is over the maximum of five and its row is dropped; the note of the other row
  is over its maximum, is made null, and the row stays.
\<close>

lemma required_fields_not_null_example:
  "(case apply_validation sample_lib
           \<lparr>columns = [u ''title'', u ''note''],
            rows = [(\<lambda>field. CNull)(u ''title'' := CStr (u ''abcdef''), u ''note'' := CStr (u ''x'')),
                    (\<lambda>field. CNull)(u ''title'' := CStr (u ''abc''), u ''note'' := CStr (u ''too long''))]\<rparr>
           [(u ''title'', \<lparr>rule_type = Some (u ''string''), rule_regex = None,
                           rule_required = True, rule_max_length = Some 5\<rparr>),
            (u ''note'', \<lparr>rule_type = Some (u ''string''), rule_regex = None,
                          rule_required = False, rule_max_length = Some 3\<rparr>)] of
      Inl exc \<Rightarrow> False
    | Inr (out, st) \<Rightarrow>
        map (\<lambda>r. (r (u ''title''), r (u ''note''))) (rows out) = [(CStr (u ''abc''), CNull)] \<and>
        list_all (\<lambda>r. \<not> isna (r (u ''title''))) (rows out) \<and> rows_discarded st = 1)"
proof -
  let ?df = "\<lparr>columns = [u ''title'', u ''note''],
            rows = [(\<lambda>field. CNull)(u ''title'' := CStr (u ''abcdef''), u ''note'' := CStr (u ''x'')),
                    (\<lambda>field. CNull)(u ''title'' := CStr (u ''abc''), u ''note'' := CStr (u ''too long''))]\<rparr>"
  let ?rules = "[(u ''title'', \<lparr>rule_type = Some (u ''string''), rule_regex = None,
                           rule_required = True, rule_max_length = Some 5\<rparr>),
            (u ''note'', \<lparr>rule_type = Some (u ''string''), rule_regex = None,
                          rule_required = False, rule_max_length = Some 3\<rparr>)]"
  obtain out st where av: "apply_validation sample_lib ?df ?rules = Inr (out, st)"
    and d: "rows_discarded st = 1"
    and v: "map (\<lambda>r. (r (u ''title''), r (u ''note''))) (rows out) = [(CStr (u ''abc''), CNull)]"
    by (simp add: validation_defs lib_defs sample_str_def Let_def)
  have c: "columns ?df \<noteq> []" by simp
  have "\<forall>f \<in> set (spec_required ?rules). \<forall>r \<in> set (rows out). \<not> isna (r f)"
    using required_fields_not_null [OF c av] by blast
  then have "list_all (\<lambda>r. \<not> isna (r (u ''title''))) (rows out)"
    by (simp add: spec_required_def list_all_iff)
  then show ?thesis
    using av d v by simp
qed

text \<open>
  C2, that every output row is non-null in every required field, fails on a batch with
  one row and no columns, under a ruleset that requires the title: \<open>df.empty\<close> holds when
  either axis is empty, so the guard at the head of \<open>apply_validation\<close> returns the batch
  as it is, with statistics of no row received, none discarded and none valid, and the
  output row is null in the required field. The loop over the fields, which the guard
  skips, makes the missing column null and counts it, and the row is then dropped.
\<close>

theorem apply_validation_without_columns:
  "(case apply_validation sample_lib \<lparr>columns = [], rows = [\<lambda>field. CNull]\<rparr>
           [(u ''title'', title_rule)] of
      Inl exc \<Rightarrow> False
    | Inr (out, st) \<Rightarrow>
        map (\<lambda>r. isna (r (u ''title''))) (rows out) = [True] \<and>
        rows_received st = 0 \<and> rows_discarded st = 0 \<and> rows_valid st = 0) \<and>
   spec_required [(u ''title'', title_rule)] = [u ''title''] \<and>
   (case field_loop sample_lib [(u ''title'', title_rule)]
           \<lparr>df_clean = \<lparr>columns = [], rows = [\<lambda>field. CNull]\<rparr>,
            invalid_cells = Map.empty, required_fields = []\<rparr> of
      Inl exc \<Rightarrow> False
    | Inr s \<Rightarrow>
        required_fields s = [u ''title''] \<and> invalid_cells s (u ''title'') = Some 1 \<and>
        rows (dropna (required_fields s) (df_clean s)) = [])"
  by (simp add: apply_validation_def df_empty_def spec_required_def title_rule_def
      field_step_def set_column_def dropna_def)

section \<open>The title length\<close>

lemma long_title_skipped:
  assumes "title_cell row = Some (Some a)" and "length (clean_quotes (a_text a)) > 65"
  shows "scrape_row L now row = None"
  using assms by (simp add: scrape_row_def extract_title_and_link_def Let_def)

lemma title_kept:
  assumes "title_cell row = Some (Some a)" and "length (clean_quotes (a_text a)) \<le> 65"
    and "a_href a = Some h" and "h \<noteq> []" and "is_valid_created_at (created_at_of row)"
  shows "\<exists>nd. scrape_row L now row = Some nd \<and> nd_title nd = Some (clean_quotes (a_text a))"
  using assms
  by (simp add: scrape_row_def extract_title_and_link_def extract_creation_date_def
      extract_summary_def truthy_str_def Let_def split: option.splits)

lemma title_validated:
  assumes re: "re_compile L (u ''.+'') = Inr dot_plus" and t: "t = clean_quotes raw"
    and n: "65 \<le> length t"
    and c: "u ''title'' \<in> set (columns df)" and r: "rows df = [r]"
    and v: "r (u ''title'') = CStr t"
    and av: "apply_validation L df DEFAULT_RULES = Inr (out, st)"
  shows "stats_invalid_cells st (u ''title'') = (if length t \<le> 65 then None else Some 1)"
    and "length t \<le> 65 \<Longrightarrow> \<forall>r' \<in> set (rows out). r' (u ''title'') = CStr t"
    and "length t > 65 \<Longrightarrow> rows out = []"
proof -
  have ne: "t \<noteq> []" using n by auto
  have st: "py_strip t = t" unfolding t by (rule clean_quotes_strip)
  have dp: "dot_plus t" using ne unfolding t by (rule clean_quotes_dot_plus)
  have "\<not> df_empty df" using c r by (auto simp: df_empty_def)
  from apply_validation_rows [OF this av]
  obtain s where s: "field_loop L DEFAULT_RULES
      \<lparr>df_clean = df, invalid_cells = Map.empty, required_fields = []\<rparr> = Inr s"
    and i: "stats_invalid_cells st = invalid_cells s"
    and o: "rows out = filter (spec_keep DEFAULT_RULES)
               (map (spec_validate_row L DEFAULT_RULES (columns df)) (rows df))"
    by blast
  let ?st0 = "\<lparr>df_clean = df, invalid_cells = Map.empty, required_fields = []\<rparr>"
  from s obtain s1 where s1: "field_step L (u ''title'', title_rule) ?st0 = Inr s1"
    and s2: "field_loop L (tl DEFAULT_RULES) s1 = Inr s"
    by (subst (asm) default_rules_title(1)) (auto split: sum.splits)
  have "invalid_cells s (u ''title'') = invalid_cells s1 (u ''title'')"
    using field_loop_invalid_other [OF s2 default_rules_title(2)] .
  also have "\<dots> = (if length t \<le> 65 then None else Some 1)"
  proof -
    have c0: "u ''title'' \<in> set (columns (df_clean ?st0))" using c by simp
    have r0: "rows (df_clean ?st0) = [r]" using r by simp
    show ?thesis
      using title_step_invalid [OF re st ne dp c0 r0 v s1] by simp
  qed
  finally show "stats_invalid_cells st (u ''title'') = (if length t \<le> 65 then None else Some 1)"
    by (simp add: i)
  have row: "spec_validate_row L DEFAULT_RULES (columns df) r (u ''title'') =
      (if length t \<le> 65 then CStr t else CNull)"
    by (subst default_rules_title(1))
       (simp add: c v spec_validate_row_other [OF default_rules_title(2)]
          title_cell_validated [OF re st ne dp])
  show "\<forall>r' \<in> set (rows out). r' (u ''title'') = CStr t" if "length t \<le> 65"
    using that row by (auto simp: o r)
  show "rows out = []" if "length t > 65"
  proof -
    have "\<not> spec_keep DEFAULT_RULES (spec_validate_row L DEFAULT_RULES (columns df) r)"
    proof
      assume "spec_keep DEFAULT_RULES (spec_validate_row L DEFAULT_RULES (columns df) r)"
      then have "\<not> isna (spec_validate_row L DEFAULT_RULES (columns df) r (u ''title''))"
        using default_rules_title(3) by (simp add: spec_keep_def list_all_iff)
      then show False using row that by simp
    qed
    then show ?thesis by (simp add: o r)
  qed
qed

lemma title_row_cell:
  assumes "u ''title'' \<in> set cols"
  shows "spec_validate_row L DEFAULT_RULES cols r (u ''title'') =
           spec_validate_cell L title_rule (r (u ''title''))"
  by (subst default_rules_title(1))
     (simp add: assms spec_validate_row_other [OF default_rules_title(2)])

lemma title_cell_shape:
  assumes "\<not> isna (spec_validate_cell L title_rule v)"
  shows "\<exists>s. spec_validate_cell L title_rule v = CStr s \<and> length s \<le> 65"
  using assms
  by (auto simp: spec_validate_cell_def title_rule_def coerce_value_def py_str_def
      fillna_str_def u_def Let_def split: if_splits sum.splits)

lemma title_masks:
  assumes re: "re_compile L (u ''.+'') = Inr regex"
  shows "\<exists>cs. map_sum id (length_check L title_rule)
            (regex_check L title_rule
              (type_check L title_rule (map (\<lambda>r. r (u ''title'')) xs, map (\<lambda>_. True) xs))) =
          Inr (cs, map (\<lambda>r. \<not> isna (spec_validate_cell L title_rule (r (u ''title'')))) xs)"
  using re
  by (auto simp: type_check_def regex_check_def length_check_def coerce_type_def title_rule_def
      where_mask_map and_mask_map comp_def Let_def spec_validate_cell_def coerce_value_def
      py_str_def fillna_str_def u_def)


lemma title_step_invalid_count:
  assumes re: "re_compile L (u ''.+'') = Inr regex"
    and c: "u ''title'' \<in> set (columns (df_clean st))"
    and s: "field_step L (u ''title'', title_rule) st = Inr st'"
  shows "invalid_cells st' (u ''title'') =
           (let n = length (filter (\<lambda>r. isna (spec_validate_cell L title_rule (r (u ''title''))))
                              (rows (df_clean st)))
            in if n = 0 then invalid_cells st (u ''title'') else Some (int n))"
proof -
  let ?xs = "rows (df_clean st)"
  let ?g = "\<lambda>r. \<not> isna (spec_validate_cell L title_rule (r (u ''title'')))"
  let ?cm0 = "type_check L title_rule (map (\<lambda>r. r (u ''title'')) ?xs, map (\<lambda>_. True) ?xs)"
  from title_masks [OF re, of ?xs]
  obtain cs cm1 where r: "regex_check L title_rule ?cm0 = Inr cm1"
    and l: "length_check L title_rule cm1 = (cs, map ?g ?xs)"
    by (cases "regex_check L title_rule ?cm0") auto
  have f: "length (filter (\<lambda>m. \<not> m) (map ?g ?xs)) =
      length (filter (\<lambda>r. isna (spec_validate_cell L title_rule (r (u ''title'')))) ?xs)"
    by (simp add: filter_map comp_def)
  show ?thesis
    using s c r l f
    by (auto simp: field_step_def get_column_def replicate_as_map comp_def Let_def filter_map)
qed

lemma title_invalid_count:
  assumes re: "re_compile L (u ''.+'') = Inr regex"
    and c: "u ''title'' \<in> set (columns df)"
    and s: "field_loop L DEFAULT_RULES
              \<lparr>df_clean = df, invalid_cells = Map.empty, required_fields = []\<rparr> = Inr s"
  shows "invalid_cells s (u ''title'') =
           (let n = length (filter (\<lambda>r. isna (spec_validate_cell L title_rule (r (u ''title''))))
                              (rows df))
            in if n = 0 then None else Some (int n))"
proof -
  let ?st0 = "\<lparr>df_clean = df, invalid_cells = Map.empty, required_fields = []\<rparr>"
  from s obtain s1 where s1: "field_step L (u ''title'', title_rule) ?st0 = Inr s1"
    and s2: "field_loop L (tl DEFAULT_RULES) s1 = Inr s"
    by (subst (asm) default_rules_title(1)) (auto split: sum.splits)
  have c0: "u ''title'' \<in> set (columns (df_clean ?st0))" using c by simp
  have "invalid_cells s (u ''title'') = invalid_cells s1 (u ''title'')"
    using field_loop_invalid_other [OF s2 default_rules_title(2)] .
  then show ?thesis
    using title_step_invalid_count [OF re c0 s1] by simp
qed

lemma filter_drops:
  assumes "x \<in> set xs" and "\<not> P x"
  shows "length (filter P xs) < length xs"
  using assms by (induction xs) (auto simp: less_Suc_eq_le)

text \<open>
  C8: a title of 65 characters after the cleaning passes the length check of the
  extractor, whose row is emitted when the link and the date pass too, and the
  \<open>max_length\<close> of the default rules, which leave the cell as it is; a title of 66
  characters is rejected by both: the extractor skips the row, the validator makes the
  cell null, counts it as invalid and drops the row. This holds for a record anywhere in a
  batch of any size: the output rows are the validated input rows, in their order,
  without those in which a required field is null, the count of invalid titles is the
  number of rows whose title is made null, and every output row has a title of at most 65
  characters.
\<close>

theorem title_length_boundary:
  assumes "title_cell row = Some (Some a)" and "t = clean_quotes (a_text a)"
    and "re_compile L (u ''.+'') = Inr dot_plus"
    and "u ''title'' \<in> set (columns df)" and "r \<in> set (rows df)"
    and "r (u ''title'') = CStr t"
    and "apply_validation L df DEFAULT_RULES = Inr (out, st)"
  shows "(length t = 65 \<longrightarrow>
            (a_href a = Some h \<and> h \<noteq> [] \<and> is_valid_created_at (created_at_of row) \<longrightarrow>
               (\<exists>nd. scrape_row L now row = Some nd \<and> nd_title nd = Some t)) \<and>
            spec_validate_row L DEFAULT_RULES (columns df) r (u ''title'') = CStr t \<and>
            (rows df = [r] \<longrightarrow>
               stats_invalid_cells st (u ''title'') = None \<and>
               (\<forall>r' \<in> set (rows out). r' (u ''title'') = CStr t))) \<and>
         (length t = 66 \<longrightarrow>
            scrape_row L now row = None \<and>
            spec_validate_row L DEFAULT_RULES (columns df) r (u ''title'') = CNull \<and>
            spec_validate_row L DEFAULT_RULES (columns df) r \<notin> set (rows out) \<and>
            length (rows out) < length (rows df) \<and>
            (\<exists>n. 1 \<le> n \<and> stats_invalid_cells st (u ''title'') = Some n) \<and>
            (rows df = [r] \<longrightarrow>
               stats_invalid_cells st (u ''title'') = Some 1 \<and> rows out = [])) \<and>
         rows out = filter (spec_keep DEFAULT_RULES)
                      (map (spec_validate_row L DEFAULT_RULES (columns df)) (rows df)) \<and>
         stats_invalid_cells st (u ''title'') =
           (let n = length (filter (\<lambda>r. isna (spec_validate_row L DEFAULT_RULES (columns df) r
                                                    (u ''title''))) (rows df))
            in if n = 0 then None else Some (int n)) \<and>
         (\<forall>r' \<in> set (rows out). \<exists>s. r' (u ''title'') = CStr s \<and> length s \<le> 65)"
proof -
  let ?V = "spec_validate_row L DEFAULT_RULES (columns df)"
  let ?K = "spec_keep DEFAULT_RULES"
  let ?T = "u ''title''"
  have "\<not> df_empty df" using assms(4,5) by (auto simp: df_empty_def)
  from apply_validation_rows [OF this assms(7)]
  obtain s where s: "field_loop L DEFAULT_RULES
      \<lparr>df_clean = df, invalid_cells = Map.empty, required_fields = []\<rparr> = Inr s"
    and i: "stats_invalid_cells st = invalid_cells s"
    and o: "rows out = filter ?K (map ?V (rows df))"
    by blast
  have cell: "?V r' ?T = spec_validate_cell L title_rule (r' ?T)" for r'
    using assms(4) by (rule title_row_cell)
  have keep: "\<not> isna (?V r' ?T)" if "?K (?V r')" for r'
    using that default_rules_title(3) by (simp add: spec_keep_def list_all_iff)
  have count: "stats_invalid_cells st ?T =
      (let n = length (filter (\<lambda>r. isna (?V r ?T)) (rows df))
       in if n = 0 then None else Some (int n))"
    unfolding i cell by (rule title_invalid_count [OF assms(3,4) s])
  have shape: "\<forall>r' \<in> set (rows out). \<exists>s. r' ?T = CStr s \<and> length s \<le> 65"
  proof
    fix r' assume "r' \<in> set (rows out)"
    then obtain r0 where r0: "r' = ?V r0" and k: "?K (?V r0)"
      unfolding o by auto
    from keep [OF k] have "\<not> isna (spec_validate_cell L title_rule (r0 ?T))"
      by (simp add: cell)
    from title_cell_shape [OF this] show "\<exists>s. r' ?T = CStr s \<and> length s \<le> 65"
      by (simp add: r0 cell)
  qed
  have row: "?V r ?T = (if length t \<le> 65 then CStr t else CNull)" if n: "65 \<le> length t"
  proof -
    have ne: "t \<noteq> []" using n by auto
    have st: "py_strip t = t" unfolding assms(2) by (rule clean_quotes_strip)
    have dp: "dot_plus t" using ne unfolding assms(2) by (rule clean_quotes_dot_plus)
    show ?thesis
      by (simp add: cell assms(6) title_cell_validated [OF assms(3) st ne dp])
  qed
  have p65: "length t = 65 \<longrightarrow>
            (a_href a = Some h \<and> h \<noteq> [] \<and> is_valid_created_at (created_at_of row) \<longrightarrow>
               (\<exists>nd. scrape_row L now row = Some nd \<and> nd_title nd = Some t)) \<and>
            ?V r ?T = CStr t \<and>
            (rows df = [r] \<longrightarrow>
               stats_invalid_cells st ?T = None \<and>
               (\<forall>r' \<in> set (rows out). r' ?T = CStr t))"
  proof (intro conjI impI)
    assume n: "length t = 65"
    then have n1: "65 \<le> length t" and n2: "length t \<le> 65" by simp_all
    show "?V r ?T = CStr t" using row [OF n1] n2 by simp
    {
      assume "a_href a = Some h \<and> h \<noteq> [] \<and> is_valid_created_at (created_at_of row)"
      then show "\<exists>nd. scrape_row L now row = Some nd \<and> nd_title nd = Some t"
        using title_kept [OF assms(1), of h L now] n2 assms(2) by simp
    }
    assume one: "rows df = [r]"
    show "stats_invalid_cells st ?T = None"
      using title_validated(1) [OF assms(3) assms(2) n1 assms(4) one assms(6,7)] n2 by simp
    show "\<forall>r' \<in> set (rows out). r' ?T = CStr t"
      using title_validated(2) [OF assms(3) assms(2) n1 assms(4) one assms(6,7) n2] .
  qed
  have p66: "length t = 66 \<longrightarrow>
            scrape_row L now row = None \<and>
            ?V r ?T = CNull \<and>
            ?V r \<notin> set (rows out) \<and>
            length (rows out) < length (rows df) \<and>
            (\<exists>n. 1 \<le> n \<and> stats_invalid_cells st ?T = Some n) \<and>
            (rows df = [r] \<longrightarrow> stats_invalid_cells st ?T = Some 1 \<and> rows out = [])"
  proof (intro conjI impI)
    assume n: "length t = 66"
    then have n1: "65 \<le> length t" and n2: "length t > 65" by simp_all
    show "scrape_row L now row = None"
      using long_title_skipped [OF assms(1)] n2 assms(2) by simp
    show null: "?V r ?T = CNull" using row [OF n1] n2 by simp
    have nk: "\<not> ?K (?V r)"
      using keep [of r] null by auto
    then show "?V r \<notin> set (rows out)"
      unfolding o by simp
    have "?V r \<in> set (map ?V (rows df))" using assms(5) by simp
    then have "length (filter ?K (map ?V (rows df))) < length (map ?V (rows df))"
      using nk filter_drops [of "?V r" "map ?V (rows df)" ?K] by blast
    then show "length (rows out) < length (rows df)"
      by (simp add: o)
    have "r \<in> set (filter (\<lambda>r. isna (?V r ?T)) (rows df))"
      using assms(5) null by simp
    then have "0 < length (filter (\<lambda>r. isna (?V r ?T)) (rows df))"
      by (rule length_pos_if_in_set)
    then show "\<exists>n. 1 \<le> n \<and> stats_invalid_cells st ?T = Some n"
      unfolding count Let_def by (cases "filter (\<lambda>r. isna (?V r ?T)) (rows df)") simp_all
    {
      assume one: "rows df = [r]"
      show "stats_invalid_cells st ?T = Some 1"
        using title_validated(1) [OF assms(3) assms(2) n1 assms(4) one assms(6,7)] n2 by simp
      show "rows out = []"
        using title_validated(3) [OF assms(3) assms(2) n1 assms(4) one assms(6,7) n2] .
    }
  qed
  show ?thesis
    using p65 p66 o count shape by blast
qed


lemma sample_title65: "length title65 = 65 \<and> clean_quotes title65 = title65"
  by (simp add: title65_def extract_defs u_def)

lemma sample_title66: "length title66 = 66 \<and> clean_quotes title66 = title66"
  by (simp add: title66_def extract_defs u_def)

text \<open>
  The two titles, each as the only record of a batch and both in one batch: the record
  with 66 characters is dropped and counted, the one with 65 stays.
\<close>

theorem title_length_boundary_witness:
  "length title65 = 65 \<and> clean_quotes title65 = title65 \<and>
   (\<exists>nd. scrape_row sample_lib (u ''2024-02-01 10:00:00'')
            (table_row title65 (u ''/doc/1'') (u ''2024-01-15T00:00:00-05:00'')) = Some nd \<and>
          nd_title nd = Some title65) \<and>
   (case apply_validation sample_lib (frame_of_normas [sample_norma title65]) DEFAULT_RULES of
      Inl exc \<Rightarrow> False
    | Inr (out, st) \<Rightarrow>
        stats_invalid_cells st (u ''title'') = None \<and>
        map (\<lambda>r. r (u ''title'')) (rows out) = [CStr title65]) \<and>
   length title66 = 66 \<and> clean_quotes title66 = title66 \<and>
   scrape_row sample_lib (u ''2024-02-01 10:00:00'')
     (table_row title66 (u ''/doc/1'') (u ''2024-01-15T00:00:00-05:00'')) = None \<and>
   (case apply_validation sample_lib (frame_of_normas [sample_norma title66]) DEFAULT_RULES of
      Inl exc \<Rightarrow> False
    | Inr (out, st) \<Rightarrow> stats_invalid_cells st (u ''title'') = Some 1 \<and> rows out = []) \<and>
   (case apply_validation sample_lib
           (frame_of_normas [sample_norma title66, sample_norma title65]) DEFAULT_RULES of
      Inl exc \<Rightarrow> False
    | Inr (out, st) \<Rightarrow>
        stats_invalid_cells st (u ''title'') = Some 1 \<and>
        map (\<lambda>r. r (u ''title'')) (rows out) = [CStr title65] \<and>
        length (rows out) < 2)"
proof -
  let ?now = "u ''2024-02-01 10:00:00''"
  let ?row = "\<lambda>t. table_row t (u ''/doc/1'') (u ''2024-01-15T00:00:00-05:00'')"
  let ?a = "\<lambda>t. \<lparr>a_text = t, a_href = Some (u ''/doc/1'')\<rparr>"
  let ?df = "\<lambda>t. frame_of_normas [sample_norma t]"
  let ?df2 = "frame_of_normas [sample_norma title66, sample_norma title65]"
  have tc: "title_cell (?row t) = Some (Some (?a t))" for t
    by (simp add: table_row_def)
  have re: "re_compile sample_lib (u ''.+'') = Inr dot_plus"
    by (simp add: lib_defs sample_re_compile_def)
  have col: "u ''title'' \<in> set (columns (?df t))" for t
    by (simp add: frame_of_normas_def norma_columns_def)
  have col2: "u ''title'' \<in> set (columns ?df2)"
    by (simp add: frame_of_normas_def norma_columns_def)
  have rws: "rows (?df t) = [norma_row (sample_norma t)]" for t
    by (simp add: frame_of_normas_def)
  have mem: "norma_row (sample_norma t) \<in> set (rows (?df t))" for t
    by (simp add: frame_of_normas_def)
  have rws2: "rows ?df2 = [norma_row (sample_norma title66), norma_row (sample_norma title65)]"
    by (simp add: frame_of_normas_def)
  have mem2: "norma_row (sample_norma title66) \<in> set (rows ?df2)"
    by (simp add: frame_of_normas_def)
  have cell: "norma_row (sample_norma t) (u ''title'') = CStr t" for t
    by (simp add: norma_row_def sample_norma_def cell_of_str_def u_def)
  have dt: "is_valid_created_at (created_at_of (?row t))" for t
    by (simp add: extract_defs u_def)
  obtain out5 st5
    where av5: "apply_validation sample_lib (?df title65) DEFAULT_RULES = Inr (out5, st5)"
      and len5: "length (rows out5) = 1"
    by (simp add: validation_defs lib_defs sample_frame_defs strptime_defs Let_def)
  obtain out6 st6
    where av6: "apply_validation sample_lib (?df title66) DEFAULT_RULES = Inr (out6, st6)"
    by (simp add: validation_defs lib_defs sample_frame_defs strptime_defs Let_def)
  obtain out2 st2
    where av2: "apply_validation sample_lib ?df2 DEFAULT_RULES = Inr (out2, st2)"
      and m2: "map (\<lambda>r. r (u ''title'')) (rows out2) = [CStr title65]"
      and s2: "stats_invalid_cells st2 (u ''title'') = Some 1"
    by (simp add: validation_defs lib_defs sample_frame_defs strptime_defs Let_def)
  have t5: "title65 = clean_quotes (a_text (?a title65))"
    using sample_title65 by simp
  have t6: "title66 = clean_quotes (a_text (?a title66))"
    using sample_title66 by simp
  note b5 = title_length_boundary [OF tc t5 re col mem cell av5,
      where h = "u ''/doc/1''" and now = ?now]
  note b6 = title_length_boundary [OF tc t6 re col mem cell av6,
      where h = "u ''/doc/1''" and now = ?now]
  note b2 = title_length_boundary [OF tc t6 re col2 mem2 cell av2,
      where h = "u ''/doc/1''" and now = ?now]
  have h: "u ''/doc/1'' \<noteq> []" by (simp add: u_def)
  have e5: "\<exists>nd. scrape_row sample_lib ?now (?row title65) = Some nd \<and> nd_title nd = Some title65"
    using b5 sample_title65 dt h by simp
  have s5: "stats_invalid_cells st5 (u ''title'') = None"
    using b5 sample_title65 rws by simp
  have "\<forall>r' \<in> set (rows out5). r' (u ''title'') = CStr title65"
    using b5 sample_title65 rws by simp
  then have m5: "map (\<lambda>r. r (u ''title'')) (rows out5) = [CStr title65]"
    using len5 by (cases "rows out5") auto
  have e6: "scrape_row sample_lib ?now (?row title66) = None"
    using b6 sample_title66 by simp
  have s6: "stats_invalid_cells st6 (u ''title'') = Some 1 \<and> rows out6 = []"
    using b6 sample_title66 rws by simp
  note c2 = b2 [THEN conjunct2, THEN conjunct1, THEN mp, OF sample_title66 [THEN conjunct1]]
  have "length (rows out2) < length (rows ?df2)"
    using c2 by (elim conjE)
  then have l2: "length (rows out2) < 2"
    by (simp add: rws2)
  show ?thesis
    using sample_title65 sample_title66 e5 s5 m5 e6 s6 av5 av6 av2 m2 l2 s2 by simp
qed

section \<open>The creation date of a row\<close>

lemma blank_strip: "list_all py_isspace s \<Longrightarrow> py_strip s = []"
  by (auto simp: py_strip_def list_all_iff dest: set_dropWhileD)

lemma not_blank_strip:
  assumes "\<not> list_all py_isspace s"
  shows "py_strip s \<noteq> []"
proof -
  let ?xs = "dropWhile py_isspace s"
  have ne: "?xs \<noteq> []"
    using assms by (auto simp: list_all_iff)
  then have "\<not> py_isspace (hd ?xs)"
    by (rule hd_dropWhile)
  moreover have "hd ?xs \<in> set (rev ?xs)"
    using ne by simp
  ultimately have "dropWhile py_isspace (rev ?xs) \<noteq> []"
    by (metis dropWhile_eq_Nil_conv)
  then show ?thesis by (simp add: py_strip_def)
qed

text \<open>
  C7, amended: a row is skipped when the value extracted for its creation date is
  missing, empty or blank, and for its date in no other case. The date text is the
  \<open>content\<close> attribute of the date span, the text of the span when it has no such
  attribute, and the text of the cell when it has no span. A text of the span with neither
  \<open>T\<close> nor \<open>/\<close> is kept as it is, and so is every text of a cell without a span; when
  the kept text is not blank and the title and the link pass, the row is emitted with that
  text as its creation date.
\<close>

theorem creation_date_check:
  "((created_at_of row = None \<or> (\<exists>s. created_at_of row = Some s \<and> list_all py_isspace s)) \<longrightarrow>
      scrape_row L now row = None) \<and>
   (fecha_cell row = Some fc \<and>
    raw = (case fc_span fc of
             None \<Rightarrow> fc_text fc
           | Some sp \<Rightarrow> (case span_content sp of Some c \<Rightarrow> c | None \<Rightarrow> span_text sp)) \<and>
    (fc_span fc = None \<or> 84 \<notin> set raw \<and> 47 \<notin> set raw) \<and>
    \<not> list_all py_isspace raw \<and>
    snd (extract_title_and_link row (new_norma now)) \<longrightarrow>
      (\<exists>nd. scrape_row L now row = Some nd \<and> nd_created_at nd = Some raw)) \<and>
   (snd (extract_title_and_link row (new_norma now)) \<and> scrape_row L now row = None \<longrightarrow>
      created_at_of row = None \<or> (\<exists>s. created_at_of row = Some s \<and> list_all py_isspace s))"
proof (intro conjI impI)
  assume "created_at_of row = None \<or> (\<exists>s. created_at_of row = Some s \<and> list_all py_isspace s)"
  then have "\<not> is_valid_created_at (created_at_of row)"
    by (auto simp: is_valid_created_at_def blank_strip)
  then show "scrape_row L now row = None"
    by (simp add: scrape_row_def extract_creation_date_def Let_def split: prod.splits)
next
  assume a: "fecha_cell row = Some fc \<and>
    raw = (case fc_span fc of
             None \<Rightarrow> fc_text fc
           | Some sp \<Rightarrow> (case span_content sp of Some c \<Rightarrow> c | None \<Rightarrow> span_text sp)) \<and>
    (fc_span fc = None \<or> 84 \<notin> set raw \<and> 47 \<notin> set raw) \<and>
    \<not> list_all py_isspace raw \<and>
    snd (extract_title_and_link row (new_norma now))"
  then have c: "created_at_of row = Some raw"
    by (auto simp: created_at_of_def Let_def split: option.splits)
  have nb: "\<not> list_all py_isspace raw" using a by blast
  then have "raw \<noteq> []" by auto
  then have "is_valid_created_at (created_at_of row)"
    using not_blank_strip [OF nb] by (simp add: c is_valid_created_at_def)
  moreover obtain nd1 where "extract_title_and_link row (new_norma now) = (nd1, True)"
    using a by (cases "extract_title_and_link row (new_norma now)") auto
  ultimately show "\<exists>nd. scrape_row L now row = Some nd \<and> nd_created_at nd = Some raw"
    using c by (simp add: scrape_row_def extract_creation_date_def Let_def)
next
  assume a: "snd (extract_title_and_link row (new_norma now)) \<and> scrape_row L now row = None"
  then obtain nd1 where "extract_title_and_link row (new_norma now) = (nd1, True)"
    by (cases "extract_title_and_link row (new_norma now)") auto
  then have "\<not> is_valid_created_at (created_at_of row)"
    using a by (auto simp: scrape_row_def extract_creation_date_def Let_def split: if_splits)
  then show "created_at_of row = None \<or> (\<exists>s. created_at_of row = Some s \<and> list_all py_isspace s)"
    using not_blank_strip
    by (cases "created_at_of row") (auto simp: is_valid_created_at_def split: if_splits)
qed


text \<open>
  C7 as stated fails: the date text \<open>pendiente\<close> is neither of the two forms, and the
  row is emitted with it.
\<close>

theorem unparseable_date_emitted:
  "84 \<notin> set (u ''pendiente'') \<and> 47 \<notin> set (u ''pendiente'') \<and>
   map nd_created_at (scrape_page sample_lib (u ''2024-02-01 10:00:00'')
     (Table [table_row (u ''Decreto 1'') (u ''/doc/1'') (u ''pendiente'')])) =
   [Some (u ''pendiente'')]"
  by (simp add: extract_defs lib_defs Let_def)

text \<open>
  Four rows: a \<open>content\<close> attribute that leaves nothing before its \<open>T\<close>, whose row is
  skipped; the text \<open>pendiente\<close> in the \<open>content\<close> attribute, in a span without the
  attribute, and a date with slashes in a cell without a span, each emitted as it is.
\<close>

theorem creation_date_check_witness:
  "created_at_of (table_row (u ''Decreto 1'') (u ''/doc/1'') (u ''T12:00'')) = Some [] \<and>
   scrape_row sample_lib (u ''2024-02-01 10:00:00'')
     (table_row (u ''Decreto 1'') (u ''/doc/1'') (u ''T12:00'')) = None \<and>
   (\<exists>nd. scrape_row sample_lib (u ''2024-02-01 10:00:00'')
            (table_row (u ''Decreto 1'') (u ''/doc/1'') (u ''pendiente'')) = Some nd \<and>
          nd_created_at nd = Some (u ''pendiente'')) \<and>
   (\<exists>nd. scrape_row sample_lib (u ''2024-02-01 10:00:00'')
            (row_with_date (Some \<lparr>fc_span = Some \<lparr>span_content = None,
                                                    span_text = u ''pendiente''\<rparr>,
                                   fc_text = u ''pendiente''\<rparr>)) = Some nd \<and>
          nd_created_at nd = Some (u ''pendiente'')) \<and>
   (\<exists>nd. scrape_row sample_lib (u ''2024-02-01 10:00:00'')
            (row_with_date (Some \<lparr>fc_span = None, fc_text = u ''15/01/2024''\<rparr>)) = Some nd \<and>
          nd_created_at nd = Some (u ''15/01/2024'')) \<and>
   scrape_row sample_lib (u ''2024-02-01 10:00:00'') (row_with_date None) = None \<and>
   created_at_of (row_with_date None) = None"
proof -
  let ?now = "u ''2024-02-01 10:00:00''"
  let ?r1 = "table_row (u ''Decreto 1'') (u ''/doc/1'') (u ''T12:00'')"
  let ?r2 = "table_row (u ''Decreto 1'') (u ''/doc/1'') (u ''pendiente'')"
  let ?sp3 = "\<lparr>span_content = None, span_text = u ''pendiente''\<rparr>"
  let ?fc3 = "\<lparr>fc_span = Some ?sp3, fc_text = u ''pendiente''\<rparr>"
  let ?fc4 = "\<lparr>fc_span = None, fc_text = u ''15/01/2024''\<rparr>"
  have c1: "created_at_of ?r1 = Some []"
    by (simp add: created_at_of_def table_row_def u_def)
  then have "created_at_of ?r1 = None \<or> (\<exists>s. created_at_of ?r1 = Some s \<and> list_all py_isspace s)"
    by simp
  then have s1: "scrape_row sample_lib ?now ?r1 = None"
    using creation_date_check [where row = ?r1 and L = sample_lib and now = ?now] by blast
  have h2: "fecha_cell ?r2 = Some \<lparr>fc_span = Some \<lparr>span_content = Some (u ''pendiente''), span_text = []\<rparr>,
                         fc_text = []\<rparr> \<and>
      u ''pendiente'' =
        (case fc_span \<lparr>fc_span = Some \<lparr>span_content = Some (u ''pendiente''), span_text = []\<rparr>,
                         fc_text = []\<rparr> of
           None \<Rightarrow> fc_text \<lparr>fc_span = Some \<lparr>span_content = Some (u ''pendiente''), span_text = []\<rparr>,
                         fc_text = []\<rparr>
         | Some sp \<Rightarrow> (case span_content sp of Some c \<Rightarrow> c | None \<Rightarrow> span_text sp)) \<and>
      (fc_span \<lparr>fc_span = Some \<lparr>span_content = Some (u ''pendiente''), span_text = []\<rparr>,
                         fc_text = []\<rparr> = None \<or>
       84 \<notin> set (u ''pendiente'') \<and> 47 \<notin> set (u ''pendiente'')) \<and>
      \<not> list_all py_isspace (u ''pendiente'') \<and>
      snd (extract_title_and_link ?r2 (new_norma ?now))"
    by (simp add: extract_defs u_def)
  have s2: "\<exists>nd. scrape_row sample_lib ?now ?r2 = Some nd \<and> nd_created_at nd = Some (u ''pendiente'')"
    using creation_date_check [where row = ?r2 and L = sample_lib and now = ?now] h2 by blast
  have h3: "fecha_cell (row_with_date (Some ?fc3)) = Some ?fc3 \<and>
      u ''pendiente'' =
        (case fc_span ?fc3 of
           None \<Rightarrow> fc_text ?fc3
         | Some sp \<Rightarrow> (case span_content sp of Some c \<Rightarrow> c | None \<Rightarrow> span_text sp)) \<and>
      (fc_span ?fc3 = None \<or> 84 \<notin> set (u ''pendiente'') \<and> 47 \<notin> set (u ''pendiente'')) \<and>
      \<not> list_all py_isspace (u ''pendiente'') \<and>
      snd (extract_title_and_link (row_with_date (Some ?fc3)) (new_norma ?now))"
    by (simp add: row_with_date_def extract_defs u_def)
  have s3: "\<exists>nd. scrape_row sample_lib ?now (row_with_date (Some ?fc3)) = Some nd \<and>
      nd_created_at nd = Some (u ''pendiente'')"
    using creation_date_check [where row = "row_with_date (Some ?fc3)" and L = sample_lib
        and now = ?now] h3 by blast
  have h4: "fecha_cell (row_with_date (Some ?fc4)) = Some ?fc4 \<and>
      u ''15/01/2024'' =
        (case fc_span ?fc4 of
           None \<Rightarrow> fc_text ?fc4
         | Some sp \<Rightarrow> (case span_content sp of Some c \<Rightarrow> c | None \<Rightarrow> span_text sp)) \<and>
      (fc_span ?fc4 = None \<or> 84 \<notin> set (u ''15/01/2024'') \<and> 47 \<notin> set (u ''15/01/2024'')) \<and>
      \<not> list_all py_isspace (u ''15/01/2024'') \<and>
      snd (extract_title_and_link (row_with_date (Some ?fc4)) (new_norma ?now))"
    by (simp add: row_with_date_def extract_defs u_def)
  have s4: "\<exists>nd. scrape_row sample_lib ?now (row_with_date (Some ?fc4)) = Some nd \<and>
      nd_created_at nd = Some (u ''15/01/2024'')"
    using creation_date_check [where row = "row_with_date (Some ?fc4)" and L = sample_lib
        and now = ?now] h4 by blast
  have s5: "scrape_row sample_lib ?now (row_with_date None) = None"
    by (simp add: row_with_date_def extract_defs u_def)
  have t5: "snd (extract_title_and_link (row_with_date None) (new_norma ?now))"
    by (simp add: row_with_date_def extract_defs u_def)
  have "created_at_of (row_with_date None) = None \<or>
      (\<exists>s. created_at_of (row_with_date None) = Some s \<and> list_all py_isspace s)"
    using creation_date_check [where row = "row_with_date None" and L = sample_lib
        and now = ?now] s5 t5 by blast
  moreover have "created_at_of (row_with_date None) = None"
    by (simp add: row_with_date_def created_at_of_def)
  ultimately show ?thesis using c1 s1 s2 s3 s4 s5 by blast
qed

section \<open>The two date parsers\<close>

lemma leaves_partD: "leaves_part p \<Longrightarrow> (v, r) \<in> set (p s) \<Longrightarrow> set r \<subseteq> set s"
  by (auto simp: leaves_part_def)

lemma leaves_any_digit: "leaves_part (any_digit L)"
  by (auto simp: leaves_part_def any_digit_def split: list.splits option.splits)

lemma leaves_digit_in: "leaves_part (digit_in lo hi)"
  by (auto simp: leaves_part_def digit_in_def split: list.splits if_splits)

lemma leaves_lit: "leaves_part (lit c)"
  by (auto simp: leaves_part_def lit_def split: list.splits if_splits)

lemma leaves_two: "leaves_part p \<Longrightarrow> leaves_part q \<Longrightarrow> leaves_part (two p q)"
  unfolding leaves_part_def two_def by fastforce

lemma leaves_alt: "leaves_part p \<Longrightarrow> leaves_part q \<Longrightarrow> leaves_part (alt p q)"
  unfolding leaves_part_def alt_def by fastforce

lemmas leaves_intros = leaves_any_digit leaves_digit_in leaves_lit leaves_two leaves_alt

lemma leaves_groups: "leaves_part (re_Y L)" "leaves_part re_m" "leaves_part (re_d L)"
  by (simp_all add: re_Y_def re_m_def re_d_def leaves_intros)

lemma re_ymd_rest:
  assumes "(x, r) \<in> set (re_ymd L s)"
  shows "set r \<subseteq> set s"
proof -
  from assms obtain y r1 z1 r2 m r3 z2 r4 d where
    "(y, r1) \<in> set (re_Y L s)" "(z1, r2) \<in> set (lit 45 r1)" "(m, r3) \<in> set (re_m r2)"
    "(z2, r4) \<in> set (lit 45 r3)" "(d, r) \<in> set (re_d L r4)"
    by (auto simp: re_ymd_def)
  then have "set r1 \<subseteq> set s" "set r2 \<subseteq> set r1" "set r3 \<subseteq> set r2" "set r4 \<subseteq> set r3"
    "set r \<subseteq> set r4"
    using leaves_groups leaves_lit by (blast dest: leaves_partD)+
  then show ?thesis by blast
qed

lemma ws_plus_Nil: "\<forall>c \<in> set r. \<not> py_isspace c \<Longrightarrow> ws_plus r = []"
  by (cases r) auto

lemma strptime_datetime_needs_space:
  assumes "\<forall>c \<in> set s. \<not> py_isspace c"
  shows "strptime_datetime L s = None"
proof -
  have "ws_plus r = []" if "(x, r) \<in> set (re_ymd L s)" for x r
    using re_ymd_rest [OF that] assms by (intro ws_plus_Nil) auto
  then have "re_ymd_hms L s = []"
    by (auto simp: re_ymd_hms_def)
  then show ?thesis by (simp add: strptime_datetime_def)
qed

lemma split_ws_no_space:
  "\<forall>c \<in> set s. \<not> py_isspace c \<Longrightarrow> split_ws cur s = (if cur @ s = [] then [] else [cur @ s])"
  by (induction s arbitrary: cur) auto

lemma py_split_no_space:
  "\<forall>c \<in> set s. \<not> py_isspace c \<Longrightarrow> py_split s = (if s = [] then [] else [s])"
  by (simp add: py_split_def split_ws_no_space)

lemma py_strip_no_space: "\<forall>c \<in> set s. \<not> py_isspace c \<Longrightarrow> py_strip s = s"
proof (cases s)
  case Nil
  then show ?thesis by (simp add: py_strip_def)
next
  case (Cons a list)
  assume a: "\<forall>c \<in> set s. \<not> py_isspace c"
  then have 1: "dropWhile py_isspace s = s"
    using Cons by simp
  have "rev s \<noteq> []" using Cons by simp
  moreover have "\<not> py_isspace (hd (rev s))"
    using a Cons by (metis calculation hd_in_set set_rev)
  ultimately have 2: "dropWhile py_isspace (rev s) = rev s"
    by (cases "rev s") auto
  show ?thesis by (simp add: py_strip_def 1 2)
qed

lemma strptime_date_Nil: "strptime_date L [] = None"
  by (simp add: strptime_date_def re_ymd_def re_Y_def two_def any_digit_def)

lemma takesD:
  "takes lo hi p \<Longrightarrow> (v, r) \<in> set (p s) \<Longrightarrow>
   \<exists>pre. s = pre @ r \<and> lo \<le> length pre \<and> length pre \<le> hi"
  by (auto simp: takes_def)

lemma takes_any_digit: "takes 1 1 (any_digit L)"
  by (auto simp: takes_def any_digit_def split: list.splits option.splits)

lemma takes_digit_in: "takes 1 1 (digit_in lo hi)"
  by (auto simp: takes_def digit_in_def split: list.splits if_splits)

lemma takes_lit: "takes 1 1 (lit c)"
  by (auto simp: takes_def lit_def split: list.splits if_splits)

lemma takes_two:
  assumes "takes a b p" and "takes c d q"
  shows "takes (a + c) (b + d) (two p q)"
  unfolding takes_def
proof (intro allI impI)
  fix s v r
  assume "(v, r) \<in> set (two p q s)"
  then obtain x r1 y where 1: "(x, r1) \<in> set (p s)" and 2: "(y, r) \<in> set (q r1)"
    by (auto simp: two_def)
  from takesD [OF assms(1) 1] obtain pre1
    where p1: "s = pre1 @ r1" "a \<le> length pre1" "length pre1 \<le> b" by blast
  from takesD [OF assms(2) 2] obtain pre2
    where p2: "r1 = pre2 @ r" "c \<le> length pre2" "length pre2 \<le> d" by blast
  show "\<exists>pre. s = pre @ r \<and> a + c \<le> length pre \<and> length pre \<le> b + d"
    using p1 p2 by (intro exI [of _ "pre1 @ pre2"]) simp
qed

lemma takes_alt:
  assumes "takes a b p" and "takes c d q"
  shows "takes (min a c) (max b d) (alt p q)"
  unfolding takes_def
proof (intro allI impI)
  fix s v r
  assume "(v, r) \<in> set (alt p q s)"
  then consider "(v, r) \<in> set (p s)" | "(v, r) \<in> set (q s)"
    by (auto simp: alt_def)
  then show "\<exists>pre. s = pre @ r \<and> min a c \<le> length pre \<and> length pre \<le> max b d"
  proof cases
    case 1
    from takesD [OF assms(1) 1] show ?thesis by fastforce
  next
    case 2
    from takesD [OF assms(2) 2] show ?thesis by fastforce
  qed
qed

lemma takes_weaken: "takes a b p \<Longrightarrow> a' \<le> a \<Longrightarrow> b \<le> b' \<Longrightarrow> takes a' b' p"
  unfolding takes_def by (meson le_trans)

lemma takes_Y: "takes 4 4 (re_Y L)"
  unfolding re_Y_def
  by (rule takes_weaken
        [OF takes_two [OF takes_two [OF takes_two [OF takes_any_digit takes_any_digit]
           takes_any_digit] takes_any_digit]])
     simp_all

lemma takes_two_digits: "takes 1 1 p \<Longrightarrow> takes 1 1 q \<Longrightarrow> takes 1 2 (two p q)"
  using takes_two [of 1 1 p 1 1 q] by (auto intro: takes_weaken)

lemma takes_one: "takes 1 1 p \<Longrightarrow> takes 1 2 p"
  by (auto intro: takes_weaken)

lemma takes_alt12: "takes 1 2 p \<Longrightarrow> takes 1 2 q \<Longrightarrow> takes 1 2 (alt p q)"
  using takes_alt [of 1 2 p 1 2 q] by simp

lemmas takes12 =
  takes_alt12 takes_two_digits takes_one takes_any_digit takes_digit_in takes_lit

lemma takes_groups:
  "takes 1 2 re_m" "takes 1 2 (re_d L)" "takes 1 2 (re_H L)" "takes 1 2 (re_M L)"
  "takes 1 2 (re_S L)"
  unfolding re_m_def re_d_def re_H_def re_M_def re_S_def
  by (intro takes12)+

lemma takes_ymd: "takes 8 10 (re_ymd L)"
  unfolding takes_def
proof (intro allI impI)
  fix s v r
  assume "(v, r) \<in> set (re_ymd L s)"
  then obtain y r1 z1 r2 m r3 z2 r4 d where
    a: "(y, r1) \<in> set (re_Y L s)" "(z1, r2) \<in> set (lit 45 r1)" "(m, r3) \<in> set (re_m r2)"
    "(z2, r4) \<in> set (lit 45 r3)" "(d, r) \<in> set (re_d L r4)"
    by (auto simp: re_ymd_def)
  from takesD [OF takes_Y a(1)] obtain p1 where 1: "s = p1 @ r1" "length p1 = 4" by auto
  from takesD [OF takes_lit a(2)] obtain p2 where 2: "r1 = p2 @ r2" "length p2 = 1" by auto
  from takesD [OF takes_groups(1) a(3)] obtain p3
    where 3: "r2 = p3 @ r3" "1 \<le> length p3" "length p3 \<le> 2" by auto
  from takesD [OF takes_lit a(4)] obtain p4 where 4: "r3 = p4 @ r4" "length p4 = 1" by auto
  from takesD [OF takes_groups(2) a(5)] obtain p5
    where 5: "r4 = p5 @ r" "1 \<le> length p5" "length p5 \<le> 2" by auto
  show "\<exists>pre. s = pre @ r \<and> 8 \<le> length pre \<and> length pre \<le> 10"
    using 1 2 3 4 5 by (intro exI [of _ "p1 @ p2 @ p3 @ p4 @ p5"]) simp
qed

lemma takes_hms: "takes 5 8 (re_hms L)"
  unfolding takes_def
proof (intro allI impI)
  fix s v r
  assume "(v, r) \<in> set (re_hms L s)"
  then obtain h r1 z1 r2 m r3 z2 r4 sec where
    a: "(h, r1) \<in> set (re_H L s)" "(z1, r2) \<in> set (lit 58 r1)" "(m, r3) \<in> set (re_M L r2)"
    "(z2, r4) \<in> set (lit 58 r3)" "(sec, r) \<in> set (re_S L r4)"
    by (auto simp: re_hms_def)
  from takesD [OF takes_groups(3) a(1)] obtain p1
    where 1: "s = p1 @ r1" "1 \<le> length p1" "length p1 \<le> 2" by auto
  from takesD [OF takes_lit a(2)] obtain p2 where 2: "r1 = p2 @ r2" "length p2 = 1" by auto
  from takesD [OF takes_groups(4) a(3)] obtain p3
    where 3: "r2 = p3 @ r3" "1 \<le> length p3" "length p3 \<le> 2" by auto
  from takesD [OF takes_lit a(4)] obtain p4 where 4: "r3 = p4 @ r4" "length p4 = 1" by auto
  from takesD [OF takes_groups(5) a(5)] obtain p5
    where 5: "r4 = p5 @ r" "1 \<le> length p5" "length p5 \<le> 2" by auto
  show "\<exists>pre. s = pre @ r \<and> 5 \<le> length pre \<and> length pre \<le> 8"
    using 1 2 3 4 5 by (intro exI [of _ "p1 @ p2 @ p3 @ p4 @ p5"]) simp
qed

lemma ws_plus_shorter: "r2 \<in> set (ws_plus r1) \<Longrightarrow> length r2 < length r1"
  by (induction r1) (auto split: if_splits simp: less_Suc_eq)

text \<open>A text the format with the time accepts is too long for the format of the date.\<close>

lemma datetime_not_date:
  assumes "strptime_datetime L s \<noteq> None"
  shows "strptime_date L s = None"
proof -
  from assms have "re_ymd_hms L s \<noteq> []"
    by (auto simp: strptime_datetime_def)
  then have "hd (re_ymd_hms L s) \<in> set (re_ymd_hms L s)"
    by simp
  moreover obtain ymd hms rest where "hd (re_ymd_hms L s) = ((ymd, hms), rest)"
    by (metis surj_pair)
  ultimately have "((ymd, hms), rest) \<in> set (re_ymd_hms L s)"
    by simp
  then obtain r1 r2 where a: "(ymd, r1) \<in> set (re_ymd L s)" "r2 \<in> set (ws_plus r1)"
    "(hms, rest) \<in> set (re_hms L r2)"
    by (auto simp: re_ymd_hms_def)
  from takesD [OF takes_ymd a(1)] have "8 + length r1 \<le> length s" by auto
  moreover from takesD [OF takes_hms a(3)] have "5 \<le> length r2" by auto
  moreover from ws_plus_shorter [OF a(2)] have "length r2 < length r1" .
  ultimately have long: "14 \<le> length s" by simp
  show ?thesis
  proof (cases "re_ymd L s")
    case Nil
    then show ?thesis by (simp add: strptime_date_def)
  next
    case (Cons x xs)
    obtain v r where x: "x = (v, r)" by (cases x)
    then have "(v, r) \<in> set (re_ymd L s)" using Cons by simp
    from takesD [OF takes_ymd this] have "length s \<le> length r + 10" by auto
    with long have "r \<noteq> []" by auto
    then show ?thesis using Cons x by (simp add: strptime_date_def)
  qed
qed


lemma ends_cleanD: "ends_clean p \<Longrightarrow> (v, []) \<in> set (p s) \<Longrightarrow> s \<noteq> [] \<and> \<not> py_isspace (last s)"
  by (auto simp: ends_clean_def)

lemma ends_any_digit:
  "\<forall>c. digit_value L c \<noteq> None \<longrightarrow> \<not> py_isspace c \<Longrightarrow> ends_clean (any_digit L)"
  by (auto simp: ends_clean_def any_digit_def split: list.splits option.splits) metis

lemma ends_digit_in: "hi \<le> 9 \<Longrightarrow> ends_clean (digit_in lo hi)"
  by (auto simp: ends_clean_def digit_in_def py_isspace_def split: list.splits if_splits)

lemma ends_two:
  assumes "takes a b p" and "ends_clean q"
  shows "ends_clean (two p q)"
  unfolding ends_clean_def
proof (intro allI impI)
  fix s v
  assume "(v, []) \<in> set (two p q s)"
  then obtain x r1 y where 1: "(x, r1) \<in> set (p s)" and 2: "(y, []) \<in> set (q r1)"
    by (auto simp: two_def)
  from takesD [OF assms(1) 1] obtain pre where "s = pre @ r1" by blast
  moreover from ends_cleanD [OF assms(2) 2] have "r1 \<noteq> [] \<and> \<not> py_isspace (last r1)" .
  ultimately show "s \<noteq> [] \<and> \<not> py_isspace (last s)" by simp
qed

lemma ends_alt: "ends_clean p \<Longrightarrow> ends_clean q \<Longrightarrow> ends_clean (alt p q)"
  by (auto simp: ends_clean_def alt_def)

lemma ends_S:
  assumes "\<forall>c. digit_value L c \<noteq> None \<longrightarrow> \<not> py_isspace c"
  shows "ends_clean (re_S L)"
  unfolding re_S_def
  by (intro ends_alt ends_two [OF takes_digit_in] ends_digit_in ends_any_digit [OF assms]) simp_all

lemma ws_plus_suffix: "r2 \<in> set (ws_plus r1) \<Longrightarrow> \<exists>pre. r1 = pre @ r2"
proof (induction r1)
  case Nil
  then show ?case by simp
next
  case (Cons c cs)
  then show ?case
    by (auto split: if_splits)
qed

lemma re_Y_first:
  assumes "re_Y L s \<noteq> []"
  shows "\<exists>c cs. s = c # cs \<and> digit_value L c \<noteq> None"
proof -
  have "any_digit L s \<noteq> []"
    using assms by (auto simp: re_Y_def two_def)
  then show ?thesis
    by (auto simp: any_digit_def split: list.splits option.splits)
qed

text \<open>A text the format with the time accepts has no whitespace at either end.\<close>

lemma datetime_trimmed:
  assumes d: "\<forall>c. digit_value L c \<noteq> None \<longrightarrow> \<not> py_isspace c"
    and ok: "strptime_datetime L s \<noteq> None"
  shows "py_strip s = s \<and> s \<noteq> []"
proof -
  from ok have ne: "re_ymd_hms L s \<noteq> []"
    by (auto simp: strptime_datetime_def)
  then have "hd (re_ymd_hms L s) \<in> set (re_ymd_hms L s)"
    by simp
  moreover obtain ymd hms rest where h: "hd (re_ymd_hms L s) = ((ymd, hms), rest)"
    by (metis surj_pair)
  moreover have "rest = []"
    using ok ne h by (cases "re_ymd_hms L s") (auto simp: strptime_datetime_def split: if_splits)
  ultimately have "((ymd, hms), []) \<in> set (re_ymd_hms L s)"
    by simp
  then obtain r1 r2 where a: "(ymd, r1) \<in> set (re_ymd L s)" "r2 \<in> set (ws_plus r1)"
    "(hms, []) \<in> set (re_hms L r2)"
    by (auto simp: re_ymd_hms_def)
  from a(3) obtain h q1 z1 q2 m q3 z2 r4 sec where
    b: "(h, q1) \<in> set (re_H L r2)" "(z1, q2) \<in> set (lit 58 q1)" "(m, q3) \<in> set (re_M L q2)"
    "(z2, r4) \<in> set (lit 58 q3)" "(sec, []) \<in> set (re_S L r4)"
    by (auto simp: re_hms_def)
  from ends_cleanD [OF ends_S [OF d] b(5)] have e: "r4 \<noteq> []" "\<not> py_isspace (last r4)"
    by simp_all
  from takesD [OF takes_ymd a(1)] obtain p0 where 0: "s = p0 @ r1" by blast
  from ws_plus_suffix [OF a(2)] obtain pw where w: "r1 = pw @ r2" by blast
  from takesD [OF takes_groups(3) b(1)] obtain p1 where 1: "r2 = p1 @ q1" by blast
  from takesD [OF takes_lit b(2)] obtain p2 where 2: "q1 = p2 @ q2" by blast
  from takesD [OF takes_groups(4) b(3)] obtain p3 where 3: "q2 = p3 @ q3" by blast
  from takesD [OF takes_lit b(4)] obtain p4 where 4: "q3 = p4 @ r4" by blast
  have s: "s = (p0 @ pw @ p1 @ p2 @ p3 @ p4) @ r4"
    using 0 w 1 2 3 4 by simp
  then have l: "s \<noteq> []" "\<not> py_isspace (last s)"
    using e by simp_all
  have "re_Y L s \<noteq> []"
    using a(1) by (auto simp: re_ymd_def)
  from re_Y_first [OF this] d have f: "\<not> py_isspace (hd s)"
    by auto
  have 1: "dropWhile py_isspace s = s"
    using l(1) f by (cases s) auto
  have 2: "dropWhile py_isspace (rev s) = rev s"
    using l by (cases "rev s") (auto simp: last_rev [symmetric] simp del: last_rev)
  show ?thesis
    using l(1) by (simp add: py_strip_def 1 2)
qed

text \<open>
  On a text the format with the time accepts, the coercion gives the date of that
  reading.
\<close>

lemma coerce_datetime_text:
  assumes d: "\<forall>c. digit_value L c \<noteq> None \<longrightarrow> \<not> py_isspace c"
    and ok: "strptime_datetime L s = Some dt"
  shows "web_date_of L s = Some dt"
    and "coerce_value L (u ''date'') (CStr s) = Some (CStr (strftime_date dt))"
proof -
  show "web_date_of L s = Some dt"
    using ok by (simp add: web_date_of_def)
  have ty: "u ''date'' \<noteq> u ''string'' \<and> u ''date'' \<noteq> u ''integer'' \<and> u ''date'' \<noteq> u ''float'' \<and>
      u ''date'' \<noteq> u ''boolean''"
    by (simp add: u_def)
  have n: "strptime_datetime L s \<noteq> None" using ok by simp
  have c: "coerce_date_text L s = Some dt"
    using datetime_not_date [OF n] ok by (simp add: coerce_date_text_def)
  show "coerce_value L (u ''date'') (CStr s) = Some (CStr (strftime_date dt))"
    using ty datetime_trimmed [OF d n] c
    by (simp add: coerce_value_def py_str_def)
qed

text \<open>
  C6, amended: the probe tries the format with the time on the whole candidate and then
  the format of the date on the first piece of the candidate split at whitespace, while
  the coercion tries the date and then the date with the time on the trimmed text. On a
  candidate without whitespace, and on a candidate the format with the time accepts, the
  two agree: the coercion accepts it if and only if the probe does, and its result is the
  date of the probe written as year, month and day. A candidate the probe cannot parse is
  passed over, never counted as new.
\<close>

theorem probe_and_coercion_dates:
  "((\<forall>c \<in> set s. \<not> py_isspace c) \<longrightarrow>
      coerce_value L (u ''date'') (CStr s) =
        map_option (\<lambda>dt. CStr (strftime_date dt)) (web_date_of L s)) \<and>
   ((\<forall>c. digit_value L c \<noteq> None \<longrightarrow> \<not> py_isspace c) \<and> strptime_datetime L s = Some dt \<longrightarrow>
      web_date_of L s = Some dt \<and>
      coerce_value L (u ''date'') (CStr s) = Some (CStr (strftime_date dt))) \<and>
   (nd_created_at r = Some s \<and> web_date_of L s = None \<longrightarrow>
      check_records L latest (r # rs) = check_records L latest rs)"
proof (intro conjI impI)
  assume a: "\<forall>c \<in> set s. \<not> py_isspace c"
  have ty: "u ''date'' \<noteq> u ''string'' \<and> u ''date'' \<noteq> u ''integer'' \<and> u ''date'' \<noteq> u ''float'' \<and>
      u ''date'' \<noteq> u ''boolean''"
    by (simp add: u_def)
  show "coerce_value L (u ''date'') (CStr s) =
        map_option (\<lambda>dt. CStr (strftime_date dt)) (web_date_of L s)"
  proof (cases "s = []")
    case True
    then show ?thesis
      using ty
      by (simp add: coerce_value_def py_str_def py_strip_def web_date_of_def py_split_def
          strptime_datetime_needs_space)
  next
    case False
    have w: "web_date_of L s = strptime_date L s"
      using a False by (simp add: web_date_of_def strptime_datetime_needs_space py_split_no_space)
    have c: "coerce_date_text L s = strptime_date L s"
      using a by (simp add: coerce_date_text_def strptime_datetime_needs_space split: option.splits)
    show ?thesis
      using ty False a by (simp add: coerce_value_def py_str_def py_strip_no_space w c)
  qed
next
  assume b: "(\<forall>c. digit_value L c \<noteq> None \<longrightarrow> \<not> py_isspace c) \<and> strptime_datetime L s = Some dt"
  then show "web_date_of L s = Some dt"
    using coerce_datetime_text(1) by blast
  from b show "coerce_value L (u ''date'') (CStr s) = Some (CStr (strftime_date dt))"
    using coerce_datetime_text(2) by blast
next
  assume "nd_created_at r = Some s \<and> web_date_of L s = None"
  then show "check_records L latest (r # rs) = check_records L latest rs"
    by simp
qed

text \<open>
  C6 as stated fails in both directions: the probe accepts \<open>2024-01-15 10:30\<close>, whose
  first piece is a date, and the coercion does not; the coercion accepts
  \<open>2024-01- 5\<close>, a day written with a blank, and the probe does not.
\<close>

theorem probe_and_coercion_differ:
  "web_date_of sample_lib (u ''2024-01-15 10:30'') =
     Some \<lparr>dt_year = 2024, dt_month = 1, dt_day = 15, dt_hour = 0, dt_minute = 0,
           dt_second = 0, dt_microsecond = 0, dt_tzinfo = None\<rparr> \<and>
   coerce_value sample_lib (u ''date'') (CStr (u ''2024-01-15 10:30'')) = None \<and>
   web_date_of sample_lib (u ''2024-01- 5'') = None \<and>
   coerce_value sample_lib (u ''date'') (CStr (u ''2024-01- 5'')) = Some (CStr (u ''2024-01-05''))"
  by (simp add: strptime_defs lib_defs coerce_value_def py_str_def py_strip_def py_isspace_def
      strftime_date_def pad_def str_nat.simps)

theorem probe_and_coercion_dates_witness:
  "coerce_value sample_lib (u ''date'') (CStr (u ''2024-01-15'')) = Some (CStr (u ''2024-01-15'')) \<and>
   web_date_of sample_lib (u ''2024-01-15'') =
     Some \<lparr>dt_year = 2024, dt_month = 1, dt_day = 15, dt_hour = 0, dt_minute = 0,
           dt_second = 0, dt_microsecond = 0, dt_tzinfo = None\<rparr> \<and>
   web_date_of sample_lib (u ''2024-01-15 10:30:00'') =
     Some \<lparr>dt_year = 2024, dt_month = 1, dt_day = 15, dt_hour = 10, dt_minute = 30,
           dt_second = 0, dt_microsecond = 0, dt_tzinfo = None\<rparr> \<and>
   coerce_value sample_lib (u ''date'') (CStr (u ''2024-01-15 10:30:00'')) =
     Some (CStr (u ''2024-01-15'')) \<and>
   web_date_of sample_lib (u ''15-01-2024'') = None \<and>
   coerce_value sample_lib (u ''date'') (CStr (u ''15-01-2024'')) = None \<and>
   \<not> check_records sample_lib None [(sample_norma title65)\<lparr>nd_created_at := Some (u ''15-01-2024'')\<rparr>]"
proof -
  let ?dt = "\<lparr>dt_year = 2024, dt_month = 1, dt_day = 15, dt_hour = 10, dt_minute = 30,
           dt_second = 0, dt_microsecond = 0, dt_tzinfo = None\<rparr>"
  have w1: "web_date_of sample_lib (u ''2024-01-15'') =
     Some \<lparr>dt_year = 2024, dt_month = 1, dt_day = 15, dt_hour = 0, dt_minute = 0,
           dt_second = 0, dt_microsecond = 0, dt_tzinfo = None\<rparr>"
    by (simp add: strptime_defs lib_defs py_isspace_def)
  have w2: "web_date_of sample_lib (u ''15-01-2024'') = None"
    by (simp add: strptime_defs lib_defs py_isspace_def)
  have n1: "\<forall>c \<in> set (u ''2024-01-15''). \<not> py_isspace c"
    by (simp add: u_def py_isspace_def)
  have n2: "\<forall>c \<in> set (u ''15-01-2024''). \<not> py_isspace c"
    by (simp add: u_def py_isspace_def)
  have dg: "\<forall>c. digit_value sample_lib c \<noteq> None \<longrightarrow> \<not> py_isspace c"
    by (auto simp: sample_lib_def ascii_digit_def py_isspace_def split: if_splits)
  have f2: "strptime_datetime sample_lib (u ''2024-01-15 10:30:00'') = Some ?dt"
    by (simp add: strptime_defs lib_defs py_isspace_def)
  have c1: "coerce_value sample_lib (u ''date'') (CStr (u ''2024-01-15'')) = Some (CStr (u ''2024-01-15''))"
    using probe_and_coercion_dates [where s = "u ''2024-01-15''" and L = sample_lib] n1 w1
    by (simp add: strftime_date_def pad_def str_nat.simps u_def)
  have c2: "coerce_value sample_lib (u ''date'') (CStr (u ''15-01-2024'')) = None"
    using probe_and_coercion_dates [where s = "u ''15-01-2024''" and L = sample_lib] n2 w2
    by simp
  have "web_date_of sample_lib (u ''2024-01-15 10:30:00'') = Some ?dt \<and>
      coerce_value sample_lib (u ''date'') (CStr (u ''2024-01-15 10:30:00'')) =
        Some (CStr (strftime_date ?dt))"
    using probe_and_coercion_dates
      [where s = "u ''2024-01-15 10:30:00''" and L = sample_lib and dt = ?dt] dg f2
    by blast
  then have c3: "web_date_of sample_lib (u ''2024-01-15 10:30:00'') = Some ?dt \<and>
      coerce_value sample_lib (u ''date'') (CStr (u ''2024-01-15 10:30:00'')) =
        Some (CStr (u ''2024-01-15''))"
    by (simp add: strftime_date_def pad_def str_nat.simps u_def)
  have "check_records sample_lib None
          [(sample_norma title65)\<lparr>nd_created_at := Some (u ''15-01-2024'')\<rparr>] =
        check_records sample_lib None []"
    using probe_and_coercion_dates
      [where s = "u ''15-01-2024''" and L = sample_lib
         and r = "(sample_norma title65)\<lparr>nd_created_at := Some (u ''15-01-2024'')\<rparr>"
         and rs = "[]" and latest = None] w2
    by (simp del: check_records.simps)
  then have k: "\<not> check_records sample_lib None
          [(sample_norma title65)\<lparr>nd_created_at := Some (u ''15-01-2024'')\<rparr>]"
    by simp
  show ?thesis using w1 w2 c1 c2 c3 k by blast
qed

section \<open>A failure of the insert in the handler\<close>








end
